theory Spec2Isabelle
  imports Complex_Main "HOL-Library.Log_Nat"
begin

section \<open>Data model of the handshake simulator\<close>

text \<open>
  The component \<open>TCPHandshakeSimulator\<close> keeps its whole state in React state variables.
  The string-literal union types of the source become datatypes; the two functions
  \<open>typeTag\<close> and \<open>lossTag\<close> give back the string each constructor stands for, because
  the loss oracle compares those strings.
\<close>

datatype TCPState = CLOSED | SYN_SENT | SYN_RECEIVED | ESTABLISHED | FAILED

datatype ConnectionStatus = Idle | Connecting | Established | Failed

datatype SimulationMode = Auto | Step

datatype PacketLoss = LossNone | LossSyn | LossSynAck | LossAck | LossRandom

datatype PacketType = SYN | SYN_ACK | ACK

datatype Direction = ClientToServer | ServerToClient

fun typeTag :: "PacketType \<Rightarrow> string" where
  "typeTag SYN = ''SYN''"
| "typeTag SYN_ACK = ''SYN-ACK''"
| "typeTag ACK = ''ACK''"

fun lossTag :: "PacketLoss \<Rightarrow> string" where
  "lossTag LossNone = ''none''"
| "lossTag LossSyn = ''syn''"
| "lossTag LossSynAck = ''syn-ack''"
| "lossTag LossAck = ''ack''"
| "lossTag LossRandom = ''random''"

text \<open>The interface \<open>PacketAnimation\<close>; \<open>seq\<close> and \<open>ack\<close> are optional fields.\<close>

record PacketAnimation =
  ptype :: PacketType
  seq :: "int option"
  ack :: "int option"
  direction :: Direction

text \<open>
  A log entry. The source stores the rendered message text together with an id and a
  timestamp read from the wall clock; the model keeps which message template was used
  and the values put into it, and the severity (the field \<open>type\<close> of \<open>LogEntry\<close>).
\<close>

datatype LogMessage =
    MsgReset
  | MsgLost PacketType
  | MsgSent PacketAnimation
  | MsgEstablished
  | MsgRetransmit int int
  | MsgMaxRetries

datatype Severity = Info | Success | Error | Warning

record LogEntry =
  message :: LogMessage
  severity :: Severity

text \<open>
  The state variables of the component, one field for each \<open>useState\<close>. JavaScript
  numbers that only ever hold small integers are \<open>int\<close>.
\<close>

record sim =
  clientState :: TCPState
  serverState :: TCPState
  connectionStatus :: ConnectionStatus
  logs :: "LogEntry list"
  simulationMode :: SimulationMode
  packetLoss :: PacketLoss
  animationSpeed :: "int list"
  randomizeISN :: bool
  currentStep :: int
  isSimulating :: bool
  retryCount :: int
  clientISN :: int
  serverISN :: int
  clientSeq :: int
  serverSeq :: int

text \<open>
  What the handlers touch besides the state variables: whether the two DOM references
  \<open>packetRef.current\<close> and \<open>canvasRef.current\<close> are set, and the random source.
  \<open>Math.random()\<close> is the sequence \<open>rnd\<close> of draws, of which \<open>draws\<close> have been consumed.
  A draw is the real number that the returned double denotes. The product of a draw with
  10000 is rounded as the double multiplication rounds it (\<open>doubleMul\<close> below). The
  comparison of a draw with the literal \<open>0.3\<close> is made with the real number 3/10; the
  double nearest to it lies just below it with no double in between, so the two
  comparisons differ for no draw other than that double itself.
\<close>

record world = sim +
  refsMounted :: bool
  rnd :: "nat \<Rightarrow> real"
  draws :: nat

text \<open>
  Every handler of the component is a closure created by one render. It reads the state
  variables of that render, which are constants for the closure however long it runs, and
  it writes through the setters into the current state. So every function below takes
  the render \<open>r\<close> it belongs to (only the state variables can be read from it) and the
  current world \<open>w\<close>, and returns the world after its writes. References and the random
  source are read from the world. Timed waits and the animation itself change no state
  and are left out: the animation library is taken to call its completion callback.
\<close>

section \<open>The functions of the component\<close>

definition mathRandom :: "world \<Rightarrow> real \<times> world" where
  "mathRandom w = (rnd w (draws w), w\<lparr>draws := draws w + 1\<rparr>)"

text \<open>
  \<open>String.prototype.toLowerCase\<close> on the strings that occur here, which are ASCII: the
  letters A to Z are moved to a to z and every other character is kept.
\<close>

definition toLowerChar :: "char \<Rightarrow> char" where
  "toLowerChar c =
     (let n = (of_char c :: nat) in if 65 \<le> n \<and> n \<le> 90 then char_of (n + 32) else c)"

definition toLowerCase :: "string \<Rightarrow> string" where
  "toLowerCase s = map toLowerChar s"

text \<open>
  Double arithmetic, as far as \<open>Math.random() * 10000\<close> needs it. A JavaScript number
  is an IEEE 754 binary64 value, and a product is the exact product rounded to the
  nearest such value, ties going to the even significand. For a positive real \<open>x\<close>,
  \<open>binade x\<close> is the exponent \<open>e\<close> with \<open>2^e \<le> x < 2^(e+1)\<close> (computed from the bit length of
  the integer part of \<open>x\<close>, or of \<open>1/x\<close> below 1; the lemma \<open>binade_bounds\<close> proves the
  two inequalities); the doubles of that binade are the multiples of \<open>ulp x\<close>, which is
  \<open>2^(e-52)\<close>, and \<open>2^(-1074)\<close> in the subnormal range. Overflow to infinity, from \<open>2^1024\<close>
  on, is not modelled: the products that occur here are below 10000. \<open>Math.floor\<close> and
  the addition of the base are exact on the values that occur.
\<close>

definition binade :: "real \<Rightarrow> int" where
  "binade x = (if 1 \<le> x then bitlen \<lfloor>x\<rfloor> - 1 else - bitlen (\<lceil>1 / x\<rceil> - 1))"

definition roundHalfEven :: "real \<Rightarrow> int" where
  "roundHalfEven y =
     (let n = \<lfloor>y\<rfloor>; d = y - of_int n
      in if d < 1 / 2 then n else if 1 / 2 < d then n + 1 else if even n then n else n + 1)"

definition ulp :: "real \<Rightarrow> real" where
  "ulp x = 2 powi (max (binade x) (- 1022) - 52)"

definition roundToDouble :: "real \<Rightarrow> real" where
  "roundToDouble x =
     (if x = 0 then 0 else sgn x * (of_int (roundHalfEven (\<bar>x\<bar> / ulp \<bar>x\<bar>)) * ulp \<bar>x\<bar>))"

definition doubleMul :: "real \<Rightarrow> real \<Rightarrow> real" where
  "doubleMul a b = roundToDouble (a * b)"

text \<open>A real number is a double when rounding leaves it as it is.\<close>

definition isDouble :: "real \<Rightarrow> bool" where
  "isDouble x = (roundToDouble x = x)"

definition generateISN :: "'a sim_scheme \<Rightarrow> world \<Rightarrow> int \<times> world" where
  "generateISN r w =
     (if randomizeISN r
      then (let (u, w') = mathRandom w in (\<lfloor>doubleMul u 10000\<rfloor> + 1000, w'))
      else (1000, w))"

definition addLog :: "LogMessage \<Rightarrow> Severity \<Rightarrow> world \<Rightarrow> world" where
  "addLog m t w = w\<lparr>logs := logs w @ [\<lparr>message = m, severity = t\<rparr>]\<rparr>"

definition resetSimulation :: "'a sim_scheme \<Rightarrow> world \<Rightarrow> world" where
  "resetSimulation r w =
     (let w1 = w\<lparr>clientState := CLOSED, serverState := CLOSED, connectionStatus := Idle,
                 currentStep := 0, isSimulating := False, retryCount := 0\<rparr>;
          (newClientISN, w2) = generateISN r w1;
          (newServerISN, w3) = generateISN r w2;
          w4 = w3\<lparr>clientISN := newClientISN, serverISN := newServerISN,
                  clientSeq := newClientISN, serverSeq := newServerISN\<rparr>;
          w5 = w4\<lparr>logs := []\<rparr>
      in addLog MsgReset Info w5)"

definition shouldDropPacket :: "'a sim_scheme \<Rightarrow> string \<Rightarrow> world \<Rightarrow> bool \<times> world" where
  "shouldDropPacket r packetType w =
     (if packetLoss r = LossNone then (False, w)
      else if lossTag (packetLoss r) = toLowerCase packetType then (True, w)
      else if packetLoss r = LossRandom
           then (let (u, w') = mathRandom w in (u < 3 / 10, w'))
      else (False, w))"

definition animatePacket :: "'a sim_scheme \<Rightarrow> PacketAnimation \<Rightarrow> world \<Rightarrow> bool \<times> world" where
  "animatePacket r animation w =
     (if \<not> refsMounted w then (False, w)
      else (let (dropped, w1) = shouldDropPacket r (typeTag (ptype animation)) w
            in if dropped then (False, addLog (MsgLost (ptype animation)) Error w1)
               else (True, addLog (MsgSent animation) Info w1)))"

text \<open>The three packets that \<open>executeStep\<close> builds, one in each case of its switch.\<close>

definition synPacket :: "'a sim_scheme \<Rightarrow> PacketAnimation" where
  "synPacket r = \<lparr>ptype = SYN, seq = Some (clientSeq r), ack = None,
                  direction = ClientToServer\<rparr>"

definition synAckPacket :: "'a sim_scheme \<Rightarrow> PacketAnimation" where
  "synAckPacket r = \<lparr>ptype = SYN_ACK, seq = Some (serverSeq r), ack = Some (clientSeq r + 1),
                     direction = ServerToClient\<rparr>"

definition ackPacket :: "'a sim_scheme \<Rightarrow> PacketAnimation" where
  "ackPacket r = \<lparr>ptype = ACK, seq = Some (clientSeq r + 1), ack = Some (serverSeq r + 1),
                  direction = ClientToServer\<rparr>"

definition executeStep :: "'a sim_scheme \<Rightarrow> int \<Rightarrow> world \<Rightarrow> bool \<times> world" where
  "executeStep r step w =
     (if step = 1 then
        animatePacket r (synPacket r) (w\<lparr>clientState := SYN_SENT, connectionStatus := Connecting\<rparr>)
      else if step = 2 then
        animatePacket r (synAckPacket r) (w\<lparr>serverState := SYN_RECEIVED\<rparr>)
      else if step = 3 then
        (let (success, w1) = animatePacket r (ackPacket r) w
         in if success
            then (True, addLog MsgEstablished Success
                          (w1\<lparr>clientState := ESTABLISHED, serverState := ESTABLISHED,
                              connectionStatus := Established\<rparr>))
            else (False, w1))
      else (False, w))"

definition maxRetries :: int where
  "maxRetries = 3"

text \<open>
  The \<open>while\<close> loop of \<open>handleStepExecution\<close>, with the local variable \<open>attempts\<close> as an
  argument; the branch taken when the loop condition fails is the code after the loop.
\<close>

function retryLoop :: "'a sim_scheme \<Rightarrow> int \<Rightarrow> int \<Rightarrow> world \<Rightarrow> bool \<times> world" where
  "retryLoop r step attempts w =
     (if attempts < maxRetries then
        (let (success, w1) = executeStep r step w
         in if success then (True, w1\<lparr>retryCount := 0\<rparr>)
            else (let attempts' = attempts + 1;
                      w2 = w1\<lparr>retryCount := attempts'\<rparr>;
                      w3 = (if attempts' < maxRetries
                            then addLog (MsgRetransmit (attempts' + 1) maxRetries) Warning w2
                            else w2)
                  in retryLoop r step attempts' w3))
      else (False, (addLog MsgMaxRetries Error
                      (w\<lparr>connectionStatus := Failed, clientState := FAILED,
                          serverState := FAILED\<rparr>))\<lparr>isSimulating := False\<rparr>))"
  by pat_completeness auto
termination
  by (relation "measure (\<lambda>(r, step, attempts, w). nat (maxRetries - attempts))") auto

definition handleStepExecution :: "'a sim_scheme \<Rightarrow> int \<Rightarrow> world \<Rightarrow> bool \<times> world" where
  "handleStepExecution r step w = retryLoop r step 0 w"

text \<open>
  The \<open>for\<close> loop of \<open>startAutoSimulation\<close>. Its first statement tests \<open>isSimulating\<close>,
  which is the state variable of the render the closure was created in.
\<close>

function autoLoop :: "'a sim_scheme \<Rightarrow> int \<Rightarrow> world \<Rightarrow> world" where
  "autoLoop r step w =
     (if step \<le> 3 then
        (if \<not> isSimulating r then w
         else (let (success, w1) = handleStepExecution r step w
               in if \<not> success then w1
                  else autoLoop r (step + 1) (w1\<lparr>currentStep := step\<rparr>)))
      else w)"
  by pat_completeness auto
termination
  by (relation "measure (\<lambda>(r, step, w). nat (4 - step))") auto

definition startAutoSimulation :: "'a sim_scheme \<Rightarrow> world \<Rightarrow> world" where
  "startAutoSimulation r w = (autoLoop r 1 (w\<lparr>isSimulating := True\<rparr>))\<lparr>isSimulating := False\<rparr>"

definition executeNextStep :: "'a sim_scheme \<Rightarrow> world \<Rightarrow> world" where
  "executeNextStep r w =
     (if currentStep r \<ge> 3 then w
      else (let w1 = w\<lparr>isSimulating := True\<rparr>;
                nextStep = currentStep r + 1;
                (success, w2) = handleStepExecution r nextStep w1;
                w3 = (if success then w2\<lparr>currentStep := nextStep\<rparr> else w2)
            in w3\<lparr>isSimulating := False\<rparr>))"

section \<open>The controls of the component\<close>

text \<open>
  What the user can do, as the JSX wires it: the main button (disabled while
  \<open>isSimulating\<close>, and in step mode once the step counter is 3) calls
  \<open>startAutoSimulation\<close> or \<open>executeNextStep\<close> according to the mode; the reset button
  (disabled while \<open>isSimulating\<close>) calls \<open>resetSimulation\<close>; the selects and the checkbox
  set one configuration variable each. A handler run by a click belongs to the current
  render, so it gets the current world as its render.
\<close>

datatype action =
    ClickMain
  | ClickReset
  | SetSimulationMode SimulationMode
  | SetPacketLoss PacketLoss
  | SetAnimationSpeed "int list"
  | SetRandomizeISN bool

fun perform :: "action \<Rightarrow> world \<Rightarrow> world" where
  "perform ClickMain w =
     (if isSimulating w \<or> (simulationMode w = Step \<and> currentStep w \<ge> 3) then w
      else if simulationMode w = Auto then startAutoSimulation w w
      else executeNextStep w w)"
| "perform ClickReset w = (if isSimulating w then w else resetSimulation w w)"
| "perform (SetSimulationMode v) w = w\<lparr>simulationMode := v\<rparr>"
| "perform (SetPacketLoss v) w = w\<lparr>packetLoss := v\<rparr>"
| "perform (SetAnimationSpeed v) w = w\<lparr>animationSpeed := v\<rparr>"
| "perform (SetRandomizeISN v) w = w\<lparr>randomizeISN := v\<rparr>"

fun performAll :: "action list \<Rightarrow> world \<Rightarrow> world" where
  "performAll [] w = w"
| "performAll (a # as) w = performAll as (perform a w)"

text \<open>
  The state the \<open>useState\<close> initialisers give, with the references set and the random
  source \<open>f\<close> untouched, and the state after the mount effect, which calls
  \<open>resetSimulation\<close> once.
\<close>

definition initialWorld :: "(nat \<Rightarrow> real) \<Rightarrow> world" where
  "initialWorld f =
     \<lparr>clientState = CLOSED, serverState = CLOSED, connectionStatus = Idle, logs = [],
      simulationMode = Auto, packetLoss = LossNone, animationSpeed = [2000],
      randomizeISN = True, currentStep = 0, isSimulating = False, retryCount = 0,
      clientISN = 1000, serverISN = 2000, clientSeq = 1000, serverSeq = 2000,
      refsMounted = True, rnd = f, draws = 0\<rparr>"

definition mounted :: "(nat \<Rightarrow> real) \<Rightarrow> world" where
  "mounted f = resetSimulation (initialWorld f) (initialWorld f)"

section \<open>The simple variant of the component\<close>

text \<open>
  The repository has a second component, \<open>SimpleTCPSimulator\<close>, with the same step
  executor and no retry loop. Its state has no retry counter and no current sequence
  numbers: the packets are built from the two initial sequence numbers, which are
  computed once by the \<open>useState\<close> initialisers, the server's from the base 2000. Its log
  keeps the last four lines and appends the new one. Its fields and functions carry the
  prefixes \<open>s\<close> and \<open>simple_\<close> here, since both components use the same names.
\<close>

record simpleSim =
  sClientState :: TCPState
  sServerState :: TCPState
  sConnectionStatus :: ConnectionStatus
  sSimulationMode :: SimulationMode
  sPacketLoss :: PacketLoss
  sAnimationSpeed :: "int list"
  sRandomizeISN :: bool
  sCurrentStep :: int
  sIsSimulating :: bool
  sLogs :: "LogMessage list"
  sClientISN :: int
  sServerISN :: int

record simpleWorld = simpleSim +
  sRefsMounted :: bool
  sRnd :: "nat \<Rightarrow> real"
  sDraws :: nat

definition simple_clientISN :: "bool \<Rightarrow> real \<Rightarrow> int" where
  "simple_clientISN randomize u =
     (if randomize then \<lfloor>doubleMul u 10000\<rfloor> + 1000 else 1000)"

definition simple_serverISN :: "bool \<Rightarrow> real \<Rightarrow> int" where
  "simple_serverISN randomize u =
     (if randomize then \<lfloor>doubleMul u 10000\<rfloor> + 2000 else 2000)"

definition simple_mathRandom :: "simpleWorld \<Rightarrow> real \<times> simpleWorld" where
  "simple_mathRandom w = (sRnd w (sDraws w), w\<lparr>sDraws := sDraws w + 1\<rparr>)"

definition simple_addLog :: "LogMessage \<Rightarrow> simpleWorld \<Rightarrow> simpleWorld" where
  "simple_addLog m w = w\<lparr>sLogs := drop (length (sLogs w) - 4) (sLogs w) @ [m]\<rparr>"

definition simple_shouldDropPacket ::
  "'a simpleSim_scheme \<Rightarrow> string \<Rightarrow> simpleWorld \<Rightarrow> bool \<times> simpleWorld" where
  "simple_shouldDropPacket r packetType w =
     (if sPacketLoss r = LossNone then (False, w)
      else if lossTag (sPacketLoss r) = toLowerCase packetType then (True, w)
      else if sPacketLoss r = LossRandom
           then (let (u, w') = simple_mathRandom w in (u < 3 / 10, w'))
      else (False, w))"

definition simple_animatePacket ::
  "'a simpleSim_scheme \<Rightarrow> PacketAnimation \<Rightarrow> simpleWorld \<Rightarrow> bool \<times> simpleWorld" where
  "simple_animatePacket r animation w =
     (if \<not> sRefsMounted w then (False, w)
      else (let (dropped, w1) = simple_shouldDropPacket r (typeTag (ptype animation)) w
            in if dropped then (False, simple_addLog (MsgLost (ptype animation)) w1)
               else (True, simple_addLog (MsgSent animation) w1)))"

definition simple_executeStep ::
  "'a simpleSim_scheme \<Rightarrow> int \<Rightarrow> simpleWorld \<Rightarrow> bool \<times> simpleWorld" where
  "simple_executeStep r step w =
     (if step = 1 then
        simple_animatePacket r
          \<lparr>ptype = SYN, seq = Some (sClientISN r), ack = None, direction = ClientToServer\<rparr>
          (w\<lparr>sClientState := SYN_SENT, sConnectionStatus := Connecting\<rparr>)
      else if step = 2 then
        simple_animatePacket r
          \<lparr>ptype = SYN_ACK, seq = Some (sServerISN r), ack = Some (sClientISN r + 1),
            direction = ServerToClient\<rparr>
          (w\<lparr>sServerState := SYN_RECEIVED\<rparr>)
      else if step = 3 then
        (let (success, w1) = simple_animatePacket r
               \<lparr>ptype = ACK, seq = Some (sClientISN r + 1), ack = Some (sServerISN r + 1),
                 direction = ClientToServer\<rparr> w
         in if success
            then (True, simple_addLog MsgEstablished
                          (w1\<lparr>sClientState := ESTABLISHED, sServerState := ESTABLISHED,
                              sConnectionStatus := Established\<rparr>))
            else (False, w1))
      else (False, w))"

text \<open>
  The state of the simple variant after its first render: \<open>randomizeISN\<close> starts as true,
  so the two initialisers consume the first two draws.
\<close>

definition simple_initialWorld :: "(nat \<Rightarrow> real) \<Rightarrow> simpleWorld" where
  "simple_initialWorld f =
     \<lparr>sClientState = CLOSED, sServerState = CLOSED, sConnectionStatus = Idle,
      sSimulationMode = Auto, sPacketLoss = LossNone, sAnimationSpeed = [2000],
      sRandomizeISN = True, sCurrentStep = 0, sIsSimulating = False, sLogs = [],
      sClientISN = simple_clientISN True (f 0), sServerISN = simple_serverISN True (f 1),
      sRefsMounted = True, sRnd = f, sDraws = 2\<rparr>"

text \<open>
  Three random sources for concrete runs, all of doubles: every draw 0; a first draw 0
  followed by draws 205/2048, a little over one tenth; and a first draw 205/2048
  followed by draws 0. With the second one the mount effect generates the initial
  sequence numbers 1000 and 2000.
\<close>

definition zeroDraws :: "nat \<Rightarrow> real" where
  "zeroDraws n = 0"

definition tenthDraws :: "nat \<Rightarrow> real" where
  "tenthDraws n = (if n = 0 then 0 else 205 / 2048)"

definition tenthFirstDraws :: "nat \<Rightarrow> real" where
  "tenthFirstDraws n = (if n = 0 then 205 / 2048 else 0)"

text \<open>
  The part of the state that the reset is specified on: endpoint states, status, step
  counter, retry counter and log.
\<close>

definition observable ::
  "world \<Rightarrow> TCPState \<times> TCPState \<times> ConnectionStatus \<times> int \<times> int \<times> LogEntry list" where
  "observable w =
     (clientState w, serverState w, connectionStatus w, currentStep w, retryCount w, logs w)"

section \<open>The rounded product\<close>

text \<open>
  The exponent computed by \<open>binade\<close> is the right one, rounding a value of a binade
  never leaves the closed binade, and a double below 1 is at most \<open>1 - 2^(-53)\<close>. So the
  product of a draw with 10000, rounded, stays below 10000.
\<close>

lemma binade_bounds:
  assumes "0 < x"
  shows "2 powi (binade x) \<le> x \<and> x < 2 powi (binade x + 1)"
proof (cases "1 \<le> x")
  case True
  define m where "m = \<lfloor>x\<rfloor>"
  have m1: "1 \<le> m" using True by (simp add: m_def)
  then have m0: "0 < m" by simp
  have b1: "1 \<le> bitlen m" using m0 by (simp add: bitlen_alt_def)
  from bitlen_bounds [OF m0] have lo: "2 ^ nat (bitlen m - 1) \<le> m" and hi: "m < 2 ^ nat (bitlen m)"
    by simp_all
  have e: "binade x = bitlen m - 1" using True by (simp add: binade_def m_def)
  have p1: "(2::real) powi (bitlen m - 1) = 2 ^ nat (bitlen m - 1)"
    using b1 by (simp add: power_int_def)
  have p2: "(2::real) powi (bitlen m) = 2 ^ nat (bitlen m)"
    using b1 by (simp add: power_int_def)
  have "real_of_int (2 ^ nat (bitlen m - 1)) \<le> real_of_int m" using lo by linarith
  also have "\<dots> \<le> x" by (simp add: m_def)
  finally have A: "2 powi (binade x) \<le> x" by (simp add: e p1)
  from hi have "m + 1 \<le> 2 ^ nat (bitlen m)" by simp
  then have "real_of_int (m + 1) \<le> real_of_int (2 ^ nat (bitlen m))" by linarith
  moreover have "x < real_of_int (m + 1)" unfolding m_def by linarith
  ultimately have B: "x < 2 powi (binade x + 1)" by (simp add: e p2)
  from A B show ?thesis ..
next
  case False
  then have x1: "x < 1" by simp
  define y where "y = 1 / x"
  have y1: "1 < y" using assms x1 by (simp add: y_def)
  define m where "m = \<lceil>y\<rceil> - 1"
  have my: "real_of_int m < y" "y \<le> real_of_int m + 1" unfolding m_def by linarith+
  have m0: "0 < m" using y1 my by linarith
  have b1: "1 \<le> bitlen m" using m0 by (simp add: bitlen_alt_def)
  from bitlen_bounds [OF m0] have lo: "2 ^ nat (bitlen m - 1) \<le> m" and hi: "m < 2 ^ nat (bitlen m)"
    by simp_all
  have e: "binade x = - bitlen m" using False by (simp add: binade_def m_def y_def)
  have p1: "(2::real) powi (- bitlen m) = 1 / 2 ^ nat (bitlen m)"
    using b1 by (simp add: power_int_def power_one_over inverse_eq_divide)
  have p2: "(2::real) powi (- bitlen m + 1) = 1 / 2 ^ nat (bitlen m - 1)"
    using b1 by (simp add: power_int_def power_one_over inverse_eq_divide nat_diff_distrib)
  from hi have "m + 1 \<le> 2 ^ nat (bitlen m)" by simp
  then have "real_of_int (m + 1) \<le> real_of_int (2 ^ nat (bitlen m))" by linarith
  then have "real_of_int m + 1 \<le> (2::real) ^ nat (bitlen m)" by simp
  with my have yle: "y \<le> 2 ^ nat (bitlen m)" by linarith
  have "real_of_int (2 ^ nat (bitlen m - 1)) \<le> real_of_int m" using lo by linarith
  then have "(2::real) ^ nat (bitlen m - 1) \<le> real_of_int m" by simp
  with my have ygt: "2 ^ nat (bitlen m - 1) < y" by linarith
  have xy: "x = 1 / y" using assms by (simp add: y_def)
  have "1 / 2 ^ nat (bitlen m) \<le> 1 / y"
    using yle y1 by (simp add: frac_le)
  then have A: "2 powi (binade x) \<le> x"
    unfolding e p1 using xy by simp
  have "1 / y < 1 / 2 ^ nat (bitlen m - 1)"
    using ygt y1 by (simp add: frac_less2)
  then have B: "x < 2 powi (binade x + 1)"
    unfolding e p2 using xy by simp
  from A B show ?thesis ..
qed

lemma roundHalfEven_bounds:
  "real_of_int (roundHalfEven y) \<le> y + 1 / 2 \<and> y - 1 / 2 \<le> real_of_int (roundHalfEven y)"
  unfolding roundHalfEven_def Let_def by (auto; linarith)

lemma roundHalfEven_int: "roundHalfEven (real_of_int n) = n"
  by (simp add: roundHalfEven_def)

lemma pow2_mono: "a \<le> b \<Longrightarrow> (2::real) powi a \<le> 2 powi b"
  using power_int_strict_increasing [of a b "2::real"] by (cases "a = b") auto

lemma pow2_pos: "0 < (2::real) powi a"
  by (simp add: power_int_def)

lemma ulp_pos: "0 < ulp x"
  by (simp add: ulp_def pow2_pos)

lemma roundToDouble_pos:
  "0 < x \<Longrightarrow> roundToDouble x = real_of_int (roundHalfEven (x / ulp x)) * ulp x"
  by (simp add: roundToDouble_def)

lemma roundToDouble_nonneg:
  assumes "0 \<le> x"
  shows "0 \<le> roundToDouble x"
proof (cases "x = 0")
  case True
  then show ?thesis by (simp add: roundToDouble_def)
next
  case False
  with assms have x: "0 < x" by simp
  have "0 \<le> x / ulp x" using x ulp_pos [of x] by simp
  with roundHalfEven_bounds [of "x / ulp x"]
  have "- 1 / 2 \<le> real_of_int (roundHalfEven (x / ulp x))" by linarith
  then have "0 \<le> roundHalfEven (x / ulp x)" by linarith
  then show ?thesis
    using ulp_pos [of x] by (simp add: roundToDouble_pos [OF x])
qed

lemma roundToDouble_le_top:
  assumes "0 < x"
  shows "roundToDouble x \<le> 2 powi (max (binade x) (- 1022) + 1)"
proof -
  define e where "e = max (binade x) (- 1022)"
  have q: "ulp x = 2 powi (e - 52)" by (simp add: ulp_def e_def)
  have split: "(2::real) powi (e + 1) = 2 ^ 53 * 2 powi (e - 52)"
  proof -
    have "e + 1 = 53 + (e - 52)" by simp
    then have "(2::real) powi (e + 1) = 2 powi (53 + (e - 52))" by (rule arg_cong)
    also have "\<dots> = 2 powi 53 * 2 powi (e - 52)" by (rule power_int_add) simp
    finally show ?thesis by simp
  qed
  have "x < 2 powi (binade x + 1)" using binade_bounds [OF assms] by simp
  also have "\<dots> \<le> 2 powi (e + 1)" by (rule pow2_mono) (simp add: e_def)
  finally have "x < 2 ^ 53 * ulp x" by (simp add: split q)
  then have "x / ulp x < 9007199254740992" using ulp_pos [of x] by (simp add: pos_divide_less_eq)
  with roundHalfEven_bounds [of "x / ulp x"]
  have "real_of_int (roundHalfEven (x / ulp x)) < 9007199254740992 + 1 / 2" by linarith
  then have "roundHalfEven (x / ulp x) \<le> 9007199254740992" by linarith
  then have "real_of_int (roundHalfEven (x / ulp x)) \<le> 9007199254740992" by linarith
  then have "real_of_int (roundHalfEven (x / ulp x)) * ulp x \<le> 9007199254740992 * ulp x"
    using ulp_pos [of x] by (simp only: mult_right_mono less_imp_le)
  then show ?thesis
    unfolding e_def [symmetric] by (simp add: roundToDouble_pos [OF assms] split q)
qed

lemma binade_unique:
  assumes "0 < x" and "2 powi k \<le> x" and "x < 2 powi (k + 1)"
  shows "binade x = k"
proof (rule ccontr)
  assume ne: "binade x \<noteq> k"
  note b = binade_bounds [OF assms(1)]
  show False
  proof (cases "binade x < k")
    case True
    then have "(2::real) powi (binade x + 1) \<le> 2 powi k" by (intro pow2_mono) simp
    with b assms show False by linarith
  next
    case False
    with ne have "k + 1 \<le> binade x" by simp
    then have "(2::real) powi (k + 1) \<le> 2 powi (binade x)" by (rule pow2_mono)
    with b assms show False by linarith
  qed
qed

lemma doubleMul_random_range:
  assumes "0 \<le> u" and "u \<le> 1 - 1 / 2 ^ 53"
  shows "0 \<le> \<lfloor>doubleMul u 10000\<rfloor> \<and> \<lfloor>doubleMul u 10000\<rfloor> \<le> 9999"
proof -
  define x where "x = u * 10000"
  have x0: "0 \<le> x" using assms by (simp add: x_def)
  have xle: "x \<le> 10000 - 10000 / 2 ^ 53" using assms by (simp add: x_def)
  have lower: "0 \<le> roundToDouble x" using x0 by (rule roundToDouble_nonneg)
  have upper: "roundToDouble x < 10000"
  proof (cases "x = 0")
    case True
    then show ?thesis by (simp add: roundToDouble_def)
  next
    case False
    with x0 have x: "0 < x" by simp
    show ?thesis
    proof (cases "binade x \<le> 12")
      case True
      then have "max (binade x) (- 1022) + 1 \<le> 13" by simp
      then have "(2::real) powi (max (binade x) (- 1022) + 1) \<le> 2 powi 13" by (rule pow2_mono)
      with roundToDouble_le_top [OF x] have "roundToDouble x \<le> 2 powi 13" by linarith
      then show ?thesis by simp
    next
      case False
      have "binade x < 14"
      proof (rule ccontr)
        assume "\<not> binade x < 14"
        then have "14 \<le> binade x" by simp
        then have "(2::real) powi 14 \<le> 2 powi (binade x)" by (rule pow2_mono)
        with binade_bounds [OF x] have "2 powi 14 \<le> x" by linarith
        with xle show False by simp
      qed
      with False have b: "binade x = 13" by simp
      have q: "ulp x = 1 / 2 ^ 39" by (simp add: ulp_def b power_int_minus_divide)
      have "x / ulp x \<le> (10000 - 10000 / 2 ^ 53) * 2 ^ 39" using xle by (simp add: q)
      also have "\<dots> < 5497558138880000 - 1 / 2" by simp
      finally have "x / ulp x < 5497558138880000 - 1 / 2" .
      with roundHalfEven_bounds [of "x / ulp x"]
      have "real_of_int (roundHalfEven (x / ulp x)) < 5497558138880000" by linarith
      then have "roundHalfEven (x / ulp x) < 5497558138880000" by linarith
      then have "roundHalfEven (x / ulp x) \<le> 5497558138879999" by simp
      then have "real_of_int (roundHalfEven (x / ulp x)) \<le> 5497558138879999" by linarith
      then have "real_of_int (roundHalfEven (x / ulp x)) * ulp x \<le> 5497558138879999 * ulp x"
        using ulp_pos [of x] by (simp only: mult_right_mono less_imp_le)
      also have "\<dots> < 10000" by (simp add: q)
      finally show ?thesis by (simp add: roundToDouble_pos [OF x])
    qed
  qed
  from lower have "0 \<le> \<lfloor>roundToDouble x\<rfloor>" by simp
  moreover from upper have "\<lfloor>roundToDouble x\<rfloor> < 10000" by (simp add: floor_less_iff)
  ultimately show ?thesis by (simp add: doubleMul_def x_def)
qed

lemma double_below_one:
  assumes "isDouble u" and "0 \<le> u" and "u < 1"
  shows "u \<le> 1 - 1 / 2 ^ 53"
proof (cases "u = 0")
  case True
  then show ?thesis by simp
next
  case False
  with assms have u: "0 < u" by simp
  note b = binade_bounds [OF u]
  have neg: "binade u < 0"
  proof (rule ccontr)
    assume "\<not> binade u < 0"
    then have "(2::real) powi 0 \<le> 2 powi (binade u)" by (intro pow2_mono) simp
    with b assms show False by simp
  qed
  show ?thesis
  proof (cases "binade u = - 1")
    case True
    have q: "ulp u = 1 / 2 ^ 53" by (simp add: ulp_def True power_int_minus_divide)
    define n where "n = roundHalfEven (u / ulp u)"
    have eq: "u = real_of_int n * (1 / 2 ^ 53)"
      using assms(1) roundToDouble_pos [OF u] by (simp add: isDouble_def n_def q)
    with assms(3) have "real_of_int n < 9007199254740992" by simp
    then have "n < 9007199254740992" by linarith
    then have "n \<le> 9007199254740991" by simp
    then have "real_of_int n \<le> 9007199254740991" by linarith
    then have "real_of_int n * (1 / 2 ^ 53) \<le> 9007199254740991 * (1 / 2 ^ 53)"
      by (simp only: mult_right_mono zero_le_divide_1_iff zero_le_power zero_le_numeral)
    also have "\<dots> = 1 - 1 / 2 ^ 53" by simp
    finally show ?thesis using eq by simp
  next
    case False
    with neg have "binade u + 1 \<le> - 1" by simp
    then have "(2::real) powi (binade u + 1) \<le> 2 powi (- 1)" by (rule pow2_mono)
    with b have "u < 1 / 2" by simp
    then show ?thesis by simp
  qed
qed

text \<open>
  Values of the rounding: the doubles written \<open>0.1\<close> and \<open>0.3\<close>, the product \<open>0.1 * 3\<close>,
  which is the double above \<open>0.3\<close>, and two ties, which go to the even significand.
\<close>

lemma roundToDouble_values:
  "roundToDouble (1 / 10) = 3602879701896397 / 2 ^ 55"
  "roundToDouble (3 / 10) = 5404319552844595 / 2 ^ 54"
  "doubleMul (3602879701896397 / 2 ^ 55) 3 = 5404319552844596 / 2 ^ 54"
  "roundToDouble (1 + 1 / 2 ^ 53) = 1"
  "roundToDouble (1 + 3 / 2 ^ 53) = 1 + 1 / 2 ^ 51"
  by code_simp+

text \<open>
  Values of the rounded product. The last draw is a double for which the rounded
  product and the exact product have different integer parts.
\<close>

lemma doubleMul_values:
  "\<lfloor>doubleMul 0 10000\<rfloor> = 0"
  "\<lfloor>doubleMul (205 / 2048) 10000\<rfloor> = 1000"
  "isDouble 0" "isDouble (205 / 2048)"
  "\<lfloor>doubleMul (2252250173647985 / 2 ^ 52) 10000\<rfloor> = 5001"
  "\<lfloor>2252250173647985 / 2 ^ 52 * (10000::real)\<rfloor> = 5000"
  "isDouble (2252250173647985 / 2 ^ 52)"
  by code_simp+

section \<open>The loss oracle\<close>

lemma toLowerCase_SYN: "toLowerCase ''SYN'' = ''syn''"
  by code_simp

lemma toLowerCase_SYN_ACK: "toLowerCase ''SYN-ACK'' = ''syn-ack''"
  by code_simp

lemma toLowerCase_ACK: "toLowerCase ''ACK'' = ''ack''"
  by code_simp

lemma shouldDropPacket_kind:
  "shouldDropPacket r (typeTag k) w =
     (case packetLoss r of
        LossNone \<Rightarrow> (False, w)
      | LossSyn \<Rightarrow> (k = SYN, w)
      | LossSynAck \<Rightarrow> (k = SYN_ACK, w)
      | LossAck \<Rightarrow> (k = ACK, w)
      | LossRandom \<Rightarrow> (rnd w (draws w) < 3 / 10, w\<lparr>draws := draws w + 1\<rparr>))"
  by (cases "packetLoss r"; cases k)
     (simp_all add: shouldDropPacket_def toLowerCase_SYN toLowerCase_SYN_ACK toLowerCase_ACK
        mathRandom_def)

text \<open>
  Claim C9. For each of the three packet kinds the oracle answers false under the policy
  none; under the policies syn, syn-ack and ack it answers true exactly for the packet
  kind of that name and false for the other two, and it consumes nothing; under the
  policy random it consumes one draw and answers true exactly when that draw is below
  3/10, and the count of consumed draws is the only thing it changes. The comparison is
  made on the lower-cased tag: for any string handed in, a literal policy answers whether
  the lower-cased string is the policy's name.
\<close>

theorem loss_oracle_contract:
  "fst (shouldDropPacket r (typeTag k) w) =
     (case packetLoss r of
        LossNone \<Rightarrow> False
      | LossSyn \<Rightarrow> k = SYN
      | LossSynAck \<Rightarrow> k = SYN_ACK
      | LossAck \<Rightarrow> k = ACK
      | LossRandom \<Rightarrow> rnd w (draws w) < 3 / 10)
   \<and> snd (shouldDropPacket r (typeTag k) w) =
     (if packetLoss r = LossRandom then w\<lparr>draws := draws w + 1\<rparr> else w)
   \<and> fst (shouldDropPacket r packetType w) =
     (case packetLoss r of
        LossNone \<Rightarrow> False
      | LossRandom \<Rightarrow> toLowerCase packetType = ''random'' \<or> rnd w (draws w) < 3 / 10
      | _ \<Rightarrow> toLowerCase packetType = lossTag (packetLoss r))"
proof (intro conjI)
  show "fst (shouldDropPacket r (typeTag k) w) =
     (case packetLoss r of
        LossNone \<Rightarrow> False
      | LossSyn \<Rightarrow> k = SYN
      | LossSynAck \<Rightarrow> k = SYN_ACK
      | LossAck \<Rightarrow> k = ACK
      | LossRandom \<Rightarrow> rnd w (draws w) < 3 / 10)"
    by (simp add: shouldDropPacket_kind split: PacketLoss.split)
  show "snd (shouldDropPacket r (typeTag k) w) =
     (if packetLoss r = LossRandom then w\<lparr>draws := draws w + 1\<rparr> else w)"
    by (simp add: shouldDropPacket_kind split: PacketLoss.split)
  show "fst (shouldDropPacket r packetType w) =
     (case packetLoss r of
        LossNone \<Rightarrow> False
      | LossRandom \<Rightarrow> toLowerCase packetType = ''random'' \<or> rnd w (draws w) < 3 / 10
      | _ \<Rightarrow> toLowerCase packetType = lossTag (packetLoss r))"
    by (cases "packetLoss r") (auto simp add: shouldDropPacket_def mathRandom_def)
qed

section \<open>What one attempt and the retry loop change\<close>

text \<open>
  The lemmas of this section say which fields a call writes. The log and the count of
  consumed draws are left as they come out of the call; every other field of the result
  is given in terms of the world the call started in.
\<close>

lemma animatePacket_shape:
  "snd (animatePacket r p w) =
     w\<lparr>logs := logs (snd (animatePacket r p w)), draws := draws (snd (animatePacket r p w))\<rparr>"
  by (simp add: animatePacket_def shouldDropPacket_kind addLog_def split: PacketLoss.split)

lemma animatePacket_fst:
  "fst (animatePacket r p w) = (refsMounted w \<and> \<not> fst (shouldDropPacket r (typeTag (ptype p)) w))"
  by (simp add: animatePacket_def split_beta)

lemma animatePacket_mounted:
  "refsMounted w \<Longrightarrow> snd (animatePacket r p w) =
     w\<lparr>logs := logs w @ [if fst (animatePacket r p w)
                          then \<lparr>message = MsgSent p, severity = Info\<rparr>
                          else \<lparr>message = MsgLost (ptype p), severity = Error\<rparr>],
        draws := (if packetLoss r = LossRandom then draws w + 1 else draws w)\<rparr>"
  by (simp add: animatePacket_def shouldDropPacket_kind addLog_def split: PacketLoss.split)

lemma executeStep_1: "executeStep r 1 w =
    animatePacket r (synPacket r) (w\<lparr>clientState := SYN_SENT, connectionStatus := Connecting\<rparr>)"
  by (simp add: executeStep_def)

lemma executeStep_2: "executeStep r 2 w =
    animatePacket r (synAckPacket r) (w\<lparr>serverState := SYN_RECEIVED\<rparr>)"
  by (simp add: executeStep_def)

lemma executeStep_3_fst: "fst (executeStep r 3 w) = fst (animatePacket r (ackPacket r) w)"
  by (simp add: executeStep_def split_beta)

lemma executeStep_3_snd: "snd (executeStep r 3 w) =
    (if fst (animatePacket r (ackPacket r) w)
     then addLog MsgEstablished Success
            ((snd (animatePacket r (ackPacket r) w))\<lparr>clientState := ESTABLISHED,
               serverState := ESTABLISHED, connectionStatus := Established\<rparr>)
     else snd (animatePacket r (ackPacket r) w))"
  by (simp add: executeStep_def split_beta)

lemma executeStep_other: "step \<noteq> 1 \<Longrightarrow> step \<noteq> 2 \<Longrightarrow> step \<noteq> 3 \<Longrightarrow> executeStep r step w = (False, w)"
  by (simp add: executeStep_def)

lemma executeStep_shape:
  "snd (executeStep r step w) =
     (if step = 1 then w\<lparr>clientState := SYN_SENT, connectionStatus := Connecting,
                          logs := logs (snd (executeStep r step w)),
                          draws := draws (snd (executeStep r step w))\<rparr>
      else if step = 2 then w\<lparr>serverState := SYN_RECEIVED,
                          logs := logs (snd (executeStep r step w)),
                          draws := draws (snd (executeStep r step w))\<rparr>
      else if step = 3 \<and> fst (executeStep r step w)
           then w\<lparr>clientState := ESTABLISHED, serverState := ESTABLISHED,
                   connectionStatus := Established,
                   logs := logs (snd (executeStep r step w)),
                   draws := draws (snd (executeStep r step w))\<rparr>
      else w\<lparr>logs := logs (snd (executeStep r step w)),
              draws := draws (snd (executeStep r step w))\<rparr>)"
proof -
  consider "step = 1" | "step = 2" | "step = 3" | "step \<noteq> 1" "step \<noteq> 2" "step \<noteq> 3"
    by blast
  then show ?thesis
  proof cases
    case 1
    show ?thesis
      unfolding 1 executeStep_1
      using animatePacket_shape [of r "synPacket r" "w\<lparr>clientState := SYN_SENT, connectionStatus := Connecting\<rparr>"]
      by simp
  next
    case 2
    show ?thesis
      unfolding 2 executeStep_2
      using animatePacket_shape [of r "synAckPacket r" "w\<lparr>serverState := SYN_RECEIVED\<rparr>"]
      by simp
  next
    case 3
    obtain l d where ld: "snd (animatePacket r (ackPacket r) w) = w\<lparr>logs := l, draws := d\<rparr>"
      using animatePacket_shape by blast
    show ?thesis
      unfolding 3 by (simp add: executeStep_3_fst executeStep_3_snd ld addLog_def)
  next
    case 4
    then show ?thesis by (simp add: executeStep_other)
  qed
qed

lemma executeStep_success_step:
  "fst (executeStep r step w) \<Longrightarrow> step = 1 \<or> step = 2 \<or> step = 3"
  by (auto simp add: executeStep_def split: if_splits)


declare retryLoop.simps [simp del]

lemma retryLoop_exit:
  "\<not> attempts < maxRetries \<Longrightarrow> retryLoop r step attempts w =
     (False, (addLog MsgMaxRetries Error
                (w\<lparr>connectionStatus := Failed, clientState := FAILED,
                    serverState := FAILED\<rparr>))\<lparr>isSimulating := False\<rparr>)"
  by (subst retryLoop.simps) simp

lemma retryLoop_success:
  "attempts < maxRetries \<Longrightarrow> fst (executeStep r step w) \<Longrightarrow>
   retryLoop r step attempts w = (True, (snd (executeStep r step w))\<lparr>retryCount := 0\<rparr>)"
  by (subst retryLoop.simps) (simp add: split_beta)

lemma retryLoop_retry:
  "attempts < maxRetries \<Longrightarrow> \<not> fst (executeStep r step w) \<Longrightarrow>
   retryLoop r step attempts w =
     retryLoop r step (attempts + 1)
       (if attempts + 1 < maxRetries
        then addLog (MsgRetransmit (attempts + 1 + 1) maxRetries) Warning
               ((snd (executeStep r step w))\<lparr>retryCount := attempts + 1\<rparr>)
        else (snd (executeStep r step w))\<lparr>retryCount := attempts + 1\<rparr>)"
  by (subst retryLoop.simps) (simp add: split_beta Let_def)

lemma retryLoop_shape:
  "snd (retryLoop r step a w) =
     (if fst (retryLoop r step a w)
      then (if step = 1
            then w\<lparr>clientState := SYN_SENT, connectionStatus := Connecting, retryCount := 0,
                   logs := logs (snd (retryLoop r step a w)),
                   draws := draws (snd (retryLoop r step a w))\<rparr>
            else if step = 2
            then w\<lparr>serverState := SYN_RECEIVED, retryCount := 0,
                   logs := logs (snd (retryLoop r step a w)),
                   draws := draws (snd (retryLoop r step a w))\<rparr>
            else w\<lparr>clientState := ESTABLISHED, serverState := ESTABLISHED,
                   connectionStatus := Established, retryCount := 0,
                   logs := logs (snd (retryLoop r step a w)),
                   draws := draws (snd (retryLoop r step a w))\<rparr>)
      else w\<lparr>clientState := FAILED, serverState := FAILED, connectionStatus := Failed,
             isSimulating := False,
             retryCount := (if a < maxRetries then maxRetries else retryCount w),
             logs := logs (snd (retryLoop r step a w)),
             draws := draws (snd (retryLoop r step a w))\<rparr>)"
proof (induction r step a w rule: retryLoop.induct)
  case (1 r step a w)
  show ?case
  proof (cases "a < maxRetries")
    case False
    then show ?thesis by (simp add: retryLoop_exit addLog_def)
  next
    case True
    define e where "e = executeStep r step w"
    obtain l d where shape: "snd e =
       (if step = 1 then w\<lparr>clientState := SYN_SENT, connectionStatus := Connecting,
                          logs := l, draws := d\<rparr>
        else if step = 2 then w\<lparr>serverState := SYN_RECEIVED, logs := l, draws := d\<rparr>
        else if step = 3 \<and> fst e
           then w\<lparr>clientState := ESTABLISHED, serverState := ESTABLISHED,
                   connectionStatus := Established, logs := l, draws := d\<rparr>
        else w\<lparr>logs := l, draws := d\<rparr>)"
      unfolding e_def using executeStep_shape [of r step w] by blast
    show ?thesis
    proof (cases "fst e")
      case True
      then have steps: "step = 1 \<or> step = 2 \<or> step = 3"
        unfolding e_def by (rule executeStep_success_step)
      have eq: "retryLoop r step a w = (True, (snd e)\<lparr>retryCount := 0\<rparr>)"
        unfolding e_def using \<open>a < maxRetries\<close> True [unfolded e_def] by (rule retryLoop_success)
      from steps True show ?thesis
        unfolding eq by (auto simp add: shape)
    next
      case False
      define w3 where "w3 = (if a + 1 < maxRetries
        then addLog (MsgRetransmit (a + 1 + 1) maxRetries) Warning ((snd e)\<lparr>retryCount := a + 1\<rparr>)
        else (snd e)\<lparr>retryCount := a + 1\<rparr>)"
      have eq: "retryLoop r step a w = retryLoop r step (a + 1) w3"
        unfolding w3_def e_def using \<open>a < maxRetries\<close> False [unfolded e_def] by (rule retryLoop_retry)
      have pe: "(fst e, snd e) = e" by simp
      define R where "R = retryLoop r step (a + 1) w3"
      have IH: "snd R =
     (if fst R
      then (if step = 1
            then w3\<lparr>clientState := SYN_SENT, connectionStatus := Connecting, retryCount := 0,
                   logs := logs (snd R), draws := draws (snd R)\<rparr>
            else if step = 2
            then w3\<lparr>serverState := SYN_RECEIVED, retryCount := 0,
                   logs := logs (snd R), draws := draws (snd R)\<rparr>
            else w3\<lparr>clientState := ESTABLISHED, serverState := ESTABLISHED,
                   connectionStatus := Established, retryCount := 0,
                   logs := logs (snd R), draws := draws (snd R)\<rparr>)
      else w3\<lparr>clientState := FAILED, serverState := FAILED, connectionStatus := Failed,
             isSimulating := False,
             retryCount := (if a + 1 < maxRetries then maxRetries else retryCount w3),
             logs := logs (snd R), draws := draws (snd R)\<rparr>)"
        unfolding R_def
        using "1.IH" [OF \<open>a < maxRetries\<close> e_def pe False refl refl w3_def] .
      define l3 where "l3 = logs w3"
      have w3_eq: "w3 =
         (if step = 1 then w\<lparr>clientState := SYN_SENT, connectionStatus := Connecting,
                          retryCount := a + 1, logs := l3, draws := d\<rparr>
          else if step = 2 then w\<lparr>serverState := SYN_RECEIVED, retryCount := a + 1,
                          logs := l3, draws := d\<rparr>
          else w\<lparr>retryCount := a + 1, logs := l3, draws := d\<rparr>)"
        unfolding l3_def using False by (simp add: w3_def shape addLog_def)
      have mx: "\<not> a + 1 < maxRetries \<Longrightarrow> a + 1 = maxRetries"
        using \<open>a < maxRetries\<close> by simp
      have main: "snd R =
     (if fst R
      then (if step = 1
            then w\<lparr>clientState := SYN_SENT, connectionStatus := Connecting, retryCount := 0,
                   logs := logs (snd R), draws := draws (snd R)\<rparr>
            else if step = 2
            then w\<lparr>serverState := SYN_RECEIVED, retryCount := 0,
                   logs := logs (snd R), draws := draws (snd R)\<rparr>
            else w\<lparr>clientState := ESTABLISHED, serverState := ESTABLISHED,
                   connectionStatus := Established, retryCount := 0,
                   logs := logs (snd R), draws := draws (snd R)\<rparr>)
      else w\<lparr>clientState := FAILED, serverState := FAILED, connectionStatus := Failed,
             isSimulating := False,
             retryCount := maxRetries,
             logs := logs (snd R), draws := draws (snd R)\<rparr>)"
        apply (subst IH)
        apply (subst (1 2 3 4 5) w3_eq)
        using mx apply simp
        done
      show ?thesis
        unfolding eq R_def [symmetric] if_P [OF \<open>a < maxRetries\<close>] by (rule main)
    qed
  qed
qed

lemmas shouldDropPacket_lit =
  shouldDropPacket_kind [of _ SYN, unfolded typeTag.simps]
  shouldDropPacket_kind [of _ SYN_ACK, unfolded typeTag.simps]
  shouldDropPacket_kind [of _ ACK, unfolded typeTag.simps]

lemma executeStep_dropped:
  assumes "refsMounted w"
    and "(step = 1 \<and> k = SYN) \<or> (step = 2 \<and> k = SYN_ACK) \<or> (step = 3 \<and> k = ACK)"
    and "fst (shouldDropPacket r (typeTag k) w)"
  shows "executeStep r step w =
     (False, (if step = 1 then w\<lparr>clientState := SYN_SENT, connectionStatus := Connecting\<rparr>
              else if step = 2 then w\<lparr>serverState := SYN_RECEIVED\<rparr> else w)
             \<lparr>logs := logs w @ [\<lparr>message = MsgLost k, severity = Error\<rparr>],
              draws := (if packetLoss r = LossRandom then draws w + 1 else draws w)\<rparr>)"
  using assms
  by (cases "packetLoss r")
     (auto simp add: executeStep_def animatePacket_def shouldDropPacket_lit addLog_def
        synPacket_def synAckPacket_def ackPacket_def)

lemma shouldDropPacket_fst_cong:
  "rnd w' = rnd w \<Longrightarrow> draws w' = draws w \<Longrightarrow>
   fst (shouldDropPacket r (typeTag k) w') = fst (shouldDropPacket r (typeTag k) w)"
  by (simp add: shouldDropPacket_kind split: PacketLoss.split)

lemma shouldDropPacket_fst_literal:
  "packetLoss r \<noteq> LossRandom \<Longrightarrow>
   fst (shouldDropPacket r (typeTag k) w') = fst (shouldDropPacket r (typeTag k) w)"
  by (simp add: shouldDropPacket_kind split: PacketLoss.split)

section \<open>The retry controller\<close>

lemma retryLoop_three_attempts:
  "(fst (handleStepExecution r step w) \<longrightarrow> retryCount (snd (handleStepExecution r step w)) = 0)
   \<and> (\<not> fst (handleStepExecution r step w) \<longrightarrow>
        retryCount (snd (handleStepExecution r step w)) = 3
        \<and> connectionStatus (snd (handleStepExecution r step w)) = Failed
        \<and> clientState (snd (handleStepExecution r step w)) = FAILED
        \<and> serverState (snd (handleStepExecution r step w)) = FAILED
        \<and> \<not> isSimulating (snd (handleStepExecution r step w)))
   \<and> (refsMounted w
        \<and> ((step = 1 \<and> k = SYN) \<or> (step = 2 \<and> k = SYN_ACK) \<or> (step = 3 \<and> k = ACK))
        \<and> fst (shouldDropPacket r (typeTag k) w)
        \<and> fst (shouldDropPacket r (typeTag k) (w\<lparr>draws := draws w + 1\<rparr>))
        \<and> fst (shouldDropPacket r (typeTag k) (w\<lparr>draws := draws w + 2\<rparr>))
       \<longrightarrow> \<not> fst (handleStepExecution r step w)
         \<and> logs (snd (handleStepExecution r step w)) =
             logs w @ [\<lparr>message = MsgLost k, severity = Error\<rparr>,
                       \<lparr>message = MsgRetransmit 2 3, severity = Warning\<rparr>,
                       \<lparr>message = MsgLost k, severity = Error\<rparr>,
                       \<lparr>message = MsgRetransmit 3 3, severity = Warning\<rparr>,
                       \<lparr>message = MsgLost k, severity = Error\<rparr>,
                       \<lparr>message = MsgMaxRetries, severity = Error\<rparr>]
         \<and> draws (snd (handleStepExecution r step w)) =
             (if packetLoss r = LossRandom then draws w + 3 else draws w))"
proof (intro conjI impI)
  assume "fst (handleStepExecution r step w)"
  then show "retryCount (snd (handleStepExecution r step w)) = 0"
    unfolding handleStepExecution_def
    by (subst retryLoop_shape) simp
next
  assume f: "\<not> fst (handleStepExecution r step w)"
  then show "retryCount (snd (handleStepExecution r step w)) = 3"
    unfolding handleStepExecution_def by (subst retryLoop_shape) (simp add: maxRetries_def)
  from f show "connectionStatus (snd (handleStepExecution r step w)) = Failed"
    unfolding handleStepExecution_def by (subst retryLoop_shape) simp
  from f show "clientState (snd (handleStepExecution r step w)) = FAILED"
    unfolding handleStepExecution_def by (subst retryLoop_shape) simp
  from f show "serverState (snd (handleStepExecution r step w)) = FAILED"
    unfolding handleStepExecution_def by (subst retryLoop_shape) simp
  from f show "\<not> isSimulating (snd (handleStepExecution r step w))"
    unfolding handleStepExecution_def by (subst retryLoop_shape) simp
next
  assume a: "refsMounted w
        \<and> ((step = 1 \<and> k = SYN) \<or> (step = 2 \<and> k = SYN_ACK) \<or> (step = 3 \<and> k = ACK))
        \<and> fst (shouldDropPacket r (typeTag k) w)
        \<and> fst (shouldDropPacket r (typeTag k) (w\<lparr>draws := draws w + 1\<rparr>))
        \<and> fst (shouldDropPacket r (typeTag k) (w\<lparr>draws := draws w + 2\<rparr>))"
  define pre where "pre = (if step = 1 then w\<lparr>clientState := SYN_SENT, connectionStatus := Connecting\<rparr>
              else if step = 2 then w\<lparr>serverState := SYN_RECEIVED\<rparr> else w)"
  define lost where "lost = \<lparr>message = MsgLost k, severity = Error\<rparr>"
  define n where "n = (if packetLoss r = LossRandom then 1 else 0 :: nat)"
  have sk: "(step = 1 \<and> k = SYN) \<or> (step = 2 \<and> k = SYN_ACK) \<or> (step = 3 \<and> k = ACK)"
    using a by blast
  have drop: "fst (shouldDropPacket r (typeTag k) w')"
    if "rnd w' = rnd w" and "draws w' = draws w + i * n" and "i \<le> 2" for w' i
  proof (cases "packetLoss r = LossRandom")
    case True
    from \<open>i \<le> 2\<close> consider "i = 0" | "i = 1" | "i = 2" by linarith
    then show ?thesis
    proof cases
      case 1
      with that True a shouldDropPacket_fst_cong [of w' w r k] show ?thesis by (simp add: n_def)
    next
      case 2
      with that True a shouldDropPacket_fst_cong [of w' "w\<lparr>draws := draws w + 1\<rparr>" r k]
      show ?thesis by (simp add: n_def)
    next
      case 3
      with that True a shouldDropPacket_fst_cong [of w' "w\<lparr>draws := draws w + 2\<rparr>" r k]
      show ?thesis by (simp add: n_def)
    qed
  next
    case False
    with a shouldDropPacket_fst_literal [of r k w' w] show ?thesis by simp
  qed
  define A where "A = (\<lambda>w' :: world. (if step = 1 then w'\<lparr>clientState := SYN_SENT, connectionStatus := Connecting\<rparr>
              else if step = 2 then w'\<lparr>serverState := SYN_RECEIVED\<rparr> else w')
             \<lparr>logs := logs w' @ [lost], draws := draws w' + n\<rparr>)"
  have step_at: "executeStep r step w' = (False, A w')"
    if "refsMounted w'" "rnd w' = rnd w" and "draws w' = draws w + i * n" and "i \<le> 2" for w' i
    using executeStep_dropped [OF that(1) sk drop [OF that(2,3,4)]]
    by (simp add: A_def lost_def n_def)
  have A_env: "refsMounted (A w') = refsMounted w' \<and> rnd (A w') = rnd w'
       \<and> draws (A w') = draws w' + n \<and> logs (A w') = logs w' @ [lost]" for w'
    by (simp add: A_def)
  define w1 where "w1 = addLog (MsgRetransmit 2 maxRetries) Warning ((A w)\<lparr>retryCount := 1\<rparr>)"
  define w2 where "w2 = addLog (MsgRetransmit 3 maxRetries) Warning ((A w1)\<lparr>retryCount := 2\<rparr>)"
  define w3 where "w3 = (A w2)\<lparr>retryCount := 3\<rparr>"
  have mounted: "refsMounted w" using a by blast
  have e0: "executeStep r step w = (False, A w)"
    using step_at [of w 0] mounted by simp
  have env1: "refsMounted w1 \<and> rnd w1 = rnd w \<and> draws w1 = draws w + 1 * n"
    using mounted by (simp add: w1_def addLog_def A_env)
  have e1: "executeStep r step w1 = (False, A w1)"
    using step_at [of w1 1] env1 by simp
  have env2: "refsMounted w2 \<and> rnd w2 = rnd w \<and> draws w2 = draws w + 2 * n"
    using env1 by (simp add: w2_def addLog_def A_env)
  have e2: "executeStep r step w2 = (False, A w2)"
    using step_at [of w2 2] env2 by simp
  have r0: "retryLoop r step 0 w = retryLoop r step 1 w1"
    using retryLoop_retry [of 0 r step w] by (simp add: e0 maxRetries_def w1_def)
  have r1: "retryLoop r step 1 w1 = retryLoop r step 2 w2"
    using retryLoop_retry [of 1 r step w1] by (simp add: e1 maxRetries_def w2_def)
  have r2: "retryLoop r step 2 w2 = retryLoop r step 3 w3"
    using retryLoop_retry [of 2 r step w2] by (simp add: e2 maxRetries_def w3_def)
  have r3: "retryLoop r step 3 w3 =
     (False, (addLog MsgMaxRetries Error
                (w3\<lparr>connectionStatus := Failed, clientState := FAILED,
                    serverState := FAILED\<rparr>))\<lparr>isSimulating := False\<rparr>)"
    by (rule retryLoop_exit) (simp add: maxRetries_def)
  have l3: "logs w3 = logs w @ [lost, \<lparr>message = MsgRetransmit 2 3, severity = Warning\<rparr>,
              lost, \<lparr>message = MsgRetransmit 3 3, severity = Warning\<rparr>, lost]"
    by (simp add: w3_def w2_def w1_def A_env addLog_def maxRetries_def)
  have d3: "draws w3 = draws w + 3 * n"
    using env2 by (simp add: w3_def A_env)
  have concl: "\<not> fst (handleStepExecution r step w)
         \<and> logs (snd (handleStepExecution r step w)) =
             logs w @ [\<lparr>message = MsgLost k, severity = Error\<rparr>,
                       \<lparr>message = MsgRetransmit 2 3, severity = Warning\<rparr>,
                       \<lparr>message = MsgLost k, severity = Error\<rparr>,
                       \<lparr>message = MsgRetransmit 3 3, severity = Warning\<rparr>,
                       \<lparr>message = MsgLost k, severity = Error\<rparr>,
                       \<lparr>message = MsgMaxRetries, severity = Error\<rparr>]
         \<and> draws (snd (handleStepExecution r step w)) =
             (if packetLoss r = LossRandom then draws w + 3 else draws w)"
    unfolding handleStepExecution_def r0 r1 r2 r3
    by (simp add: addLog_def l3 d3 lost_def n_def)
  from concl show "\<not> fst (handleStepExecution r step w)" by blast
  from concl show "logs (snd (handleStepExecution r step w)) =
             logs w @ [\<lparr>message = MsgLost k, severity = Error\<rparr>,
                       \<lparr>message = MsgRetransmit 2 3, severity = Warning\<rparr>,
                       \<lparr>message = MsgLost k, severity = Error\<rparr>,
                       \<lparr>message = MsgRetransmit 3 3, severity = Warning\<rparr>,
                       \<lparr>message = MsgLost k, severity = Error\<rparr>,
                       \<lparr>message = MsgMaxRetries, severity = Error\<rparr>]" by blast
  from concl show "draws (snd (handleStepExecution r step w)) =
             (if packetLoss r = LossRandom then draws w + 3 else draws w)" by blast
qed

text \<open>
  Claim C2. Whenever \<open>handleStepExecution\<close> returns success the retry counter is 0;
  whenever it returns failure the retry counter is 3, the status is failed, both
  endpoints are FAILED and the run flag is off. If the references are set and the packet
  of the step is dropped at each of three attempts (under a literal policy that is the
  policy naming the packet kind of the step, under the random policy three draws below
  3/10), the controller returns failure after exactly three attempts: the log gains
  three loss entries separated by the two retransmission notices, then the failure
  entry, and under the random policy exactly three draws are consumed. And whenever an
  attempt succeeds, at whatever turn of the loop, the loop returns success at once with
  the world of that attempt and the retry counter 0; so a failure of the controller
  means that the first attempt failed.
\<close>

theorem retry_controller:
  "(fst (handleStepExecution r step w) \<longrightarrow> retryCount (snd (handleStepExecution r step w)) = 0)
   \<and> (\<not> fst (handleStepExecution r step w) \<longrightarrow>
        retryCount (snd (handleStepExecution r step w)) = 3
        \<and> connectionStatus (snd (handleStepExecution r step w)) = Failed
        \<and> clientState (snd (handleStepExecution r step w)) = FAILED
        \<and> serverState (snd (handleStepExecution r step w)) = FAILED
        \<and> \<not> isSimulating (snd (handleStepExecution r step w)))
   \<and> (refsMounted w
        \<and> ((step = 1 \<and> k = SYN) \<or> (step = 2 \<and> k = SYN_ACK) \<or> (step = 3 \<and> k = ACK))
        \<and> fst (shouldDropPacket r (typeTag k) w)
        \<and> fst (shouldDropPacket r (typeTag k) (w\<lparr>draws := draws w + 1\<rparr>))
        \<and> fst (shouldDropPacket r (typeTag k) (w\<lparr>draws := draws w + 2\<rparr>))
       \<longrightarrow> \<not> fst (handleStepExecution r step w)
         \<and> logs (snd (handleStepExecution r step w)) =
             logs w @ [\<lparr>message = MsgLost k, severity = Error\<rparr>,
                       \<lparr>message = MsgRetransmit 2 3, severity = Warning\<rparr>,
                       \<lparr>message = MsgLost k, severity = Error\<rparr>,
                       \<lparr>message = MsgRetransmit 3 3, severity = Warning\<rparr>,
                       \<lparr>message = MsgLost k, severity = Error\<rparr>,
                       \<lparr>message = MsgMaxRetries, severity = Error\<rparr>]
         \<and> draws (snd (handleStepExecution r step w)) =
             (if packetLoss r = LossRandom then draws w + 3 else draws w))
   \<and> (a < maxRetries \<and> fst (executeStep r step w') \<longrightarrow>
        retryLoop r step a w' = (True, (snd (executeStep r step w'))\<lparr>retryCount := 0\<rparr>))
   \<and> (\<not> fst (handleStepExecution r step w) \<longrightarrow> \<not> fst (executeStep r step w))"
proof -
  have later: "a < maxRetries \<and> fst (executeStep r step w') \<longrightarrow>
        retryLoop r step a w' = (True, (snd (executeStep r step w'))\<lparr>retryCount := 0\<rparr>)"
    by (simp add: retryLoop_success)
  have first: "\<not> fst (handleStepExecution r step w) \<longrightarrow> \<not> fst (executeStep r step w)"
    unfolding handleStepExecution_def
    using retryLoop_success [of 0 r step w] by (auto simp add: maxRetries_def)
  from retryLoop_three_attempts [of r step w k] later first show ?thesis
    by blast
qed

theorem retry_controller_witness:
  "refsMounted (perform (SetPacketLoss LossSyn) (mounted zeroDraws))
   \<and> fst (shouldDropPacket (perform (SetPacketLoss LossSyn) (mounted zeroDraws)) (typeTag SYN)
            (perform (SetPacketLoss LossSyn) (mounted zeroDraws)))
   \<and> \<not> fst (handleStepExecution (perform (SetPacketLoss LossSyn) (mounted zeroDraws)) 1
              (perform (SetPacketLoss LossSyn) (mounted zeroDraws)))
   \<and> retryCount (snd (handleStepExecution (perform (SetPacketLoss LossSyn) (mounted zeroDraws)) 1
              (perform (SetPacketLoss LossSyn) (mounted zeroDraws)))) = 3
   \<and> connectionStatus (snd (handleStepExecution (perform (SetPacketLoss LossSyn) (mounted zeroDraws)) 1
              (perform (SetPacketLoss LossSyn) (mounted zeroDraws)))) = Failed
   \<and> fst (handleStepExecution (mounted zeroDraws) 1 (mounted zeroDraws))
   \<and> retryCount (snd (handleStepExecution (mounted zeroDraws) 1 (mounted zeroDraws))) = 0"
proof -
  define W where "W = perform (SetPacketLoss LossSyn) (mounted zeroDraws)"
  have h: "refsMounted W
        \<and> ((1 = (1::int) \<and> SYN = SYN) \<or> (1 = (2::int) \<and> SYN = SYN_ACK) \<or> (1 = (3::int) \<and> SYN = ACK))
        \<and> fst (shouldDropPacket W (typeTag SYN) W)
        \<and> fst (shouldDropPacket W (typeTag SYN) (W\<lparr>draws := draws W + 1\<rparr>))
        \<and> fst (shouldDropPacket W (typeTag SYN) (W\<lparr>draws := draws W + 2\<rparr>))"
    unfolding W_def by code_simp
  have s: "fst (handleStepExecution (mounted zeroDraws) 1 (mounted zeroDraws))"
    by code_simp
  from retry_controller [of W 1 W SYN] h
  have f: "\<not> fst (handleStepExecution W 1 W)" by blast
  with retry_controller [of W 1 W SYN]
  have g: "retryCount (snd (handleStepExecution W 1 W)) = 3
         \<and> connectionStatus (snd (handleStepExecution W 1 W)) = Failed" by blast
  from retry_controller [of "mounted zeroDraws" 1 "mounted zeroDraws" SYN] s
  have z: "retryCount (snd (handleStepExecution (mounted zeroDraws) 1 (mounted zeroDraws))) = 0"
    by blast
  from h f g s z show ?thesis unfolding W_def by blast
qed

section \<open>The two drivers\<close>

lemma mounted_fields:
  "clientState (mounted f) = CLOSED" "serverState (mounted f) = CLOSED"
  "connectionStatus (mounted f) = Idle" "currentStep (mounted f) = 0"
  "retryCount (mounted f) = 0" "isSimulating (mounted f) = False"
  "simulationMode (mounted f) = Auto" "packetLoss (mounted f) = LossNone"
  "randomizeISN (mounted f) = True" "refsMounted (mounted f) = True"
  "logs (mounted f) = [\<lparr>message = MsgReset, severity = Info\<rparr>]"
  "rnd (mounted f) = f" "draws (mounted f) = 2"
  "clientISN (mounted f) = \<lfloor>doubleMul (f 0) 10000\<rfloor> + 1000"
  "serverISN (mounted f) = \<lfloor>doubleMul (f 1) 10000\<rfloor> + 1000"
  "clientSeq (mounted f) = clientISN (mounted f)"
  "serverSeq (mounted f) = serverISN (mounted f)"
  by (simp_all add: mounted_def initialWorld_def resetSimulation_def generateISN_def
        mathRandom_def addLog_def)

lemma autoLoop_stale: "\<not> isSimulating r \<Longrightarrow> step \<le> 3 \<Longrightarrow> autoLoop r step w = w"
  by (subst autoLoop.simps) simp

lemma startAutoSimulation_stale:
  "\<not> isSimulating r \<Longrightarrow> startAutoSimulation r w = w\<lparr>isSimulating := False\<rparr>"
  by (simp add: startAutoSimulation_def autoLoop_stale)

lemma handleStepExecution_shape:
  "snd (handleStepExecution r step w) =
     (if fst (handleStepExecution r step w)
      then (if step = 1
            then w\<lparr>clientState := SYN_SENT, connectionStatus := Connecting, retryCount := 0,
                   logs := logs (snd (handleStepExecution r step w)),
                   draws := draws (snd (handleStepExecution r step w))\<rparr>
            else if step = 2
            then w\<lparr>serverState := SYN_RECEIVED, retryCount := 0,
                   logs := logs (snd (handleStepExecution r step w)),
                   draws := draws (snd (handleStepExecution r step w))\<rparr>
            else w\<lparr>clientState := ESTABLISHED, serverState := ESTABLISHED,
                   connectionStatus := Established, retryCount := 0,
                   logs := logs (snd (handleStepExecution r step w)),
                   draws := draws (snd (handleStepExecution r step w))\<rparr>)
      else w\<lparr>clientState := FAILED, serverState := FAILED, connectionStatus := Failed,
             isSimulating := False, retryCount := 3,
             logs := logs (snd (handleStepExecution r step w)),
             draws := draws (snd (handleStepExecution r step w))\<rparr>)"
proof -
  have m: "(if 0 < maxRetries then maxRetries else retryCount w) = 3"
    by (simp add: maxRetries_def)
  show ?thesis
    unfolding handleStepExecution_def using retryLoop_shape [of r step 0 w] unfolding m .
qed

lemma handleStepExecution_frame:
  "clientISN (snd (handleStepExecution r step w)) = clientISN w"
  "serverISN (snd (handleStepExecution r step w)) = serverISN w"
  "clientSeq (snd (handleStepExecution r step w)) = clientSeq w"
  "serverSeq (snd (handleStepExecution r step w)) = serverSeq w"
  "refsMounted (snd (handleStepExecution r step w)) = refsMounted w"
  "rnd (snd (handleStepExecution r step w)) = rnd w"
  "currentStep (snd (handleStepExecution r step w)) = currentStep w"
  "simulationMode (snd (handleStepExecution r step w)) = simulationMode w"
  "packetLoss (snd (handleStepExecution r step w)) = packetLoss w"
  "randomizeISN (snd (handleStepExecution r step w)) = randomizeISN w"
  "animationSpeed (snd (handleStepExecution r step w)) = animationSpeed w"
  by (subst handleStepExecution_shape, simp)+

lemma handleStepExecution_success_step:
  "fst (handleStepExecution r step w) \<Longrightarrow> step = 1 \<or> step = 2 \<or> step = 3"
proof (rule ccontr)
  assume ok: "fst (handleStepExecution r step w)" and "\<not> (step = 1 \<or> step = 2 \<or> step = 3)"
  then have other: "step \<noteq> 1" "step \<noteq> 2" "step \<noteq> 3" by simp_all
  have e: "\<not> fst (executeStep r step w')" for w'
    by (simp add: executeStep_other [OF other])
  have "\<not> fst (handleStepExecution r step w)"
    unfolding handleStepExecution_def
    by (simp add: retryLoop_retry e maxRetries_def retryLoop_exit)
  with ok show False by blast
qed

lemma executeStep_none:
  "refsMounted w \<Longrightarrow> packetLoss r = LossNone \<Longrightarrow> step = 1 \<or> step = 2 \<or> step = 3 \<Longrightarrow>
   fst (executeStep r step w)"
  by (auto simp add: executeStep_def animatePacket_def shouldDropPacket_def split_beta)

lemma handleStepExecution_none:
  "refsMounted w \<Longrightarrow> packetLoss r = LossNone \<Longrightarrow> step = 1 \<or> step = 2 \<or> step = 3 \<Longrightarrow>
   fst (handleStepExecution r step w)"
  unfolding handleStepExecution_def
  by (simp add: retryLoop_success executeStep_none maxRetries_def)

declare autoLoop.simps [simp del]

lemma autoLoop_done: "\<not> step \<le> 3 \<Longrightarrow> autoLoop r step w = w"
  by (subst autoLoop.simps) simp

lemma autoLoop_break:
  "step \<le> 3 \<Longrightarrow> isSimulating r \<Longrightarrow> \<not> fst (handleStepExecution r step w) \<Longrightarrow>
   autoLoop r step w = snd (handleStepExecution r step w)"
  by (subst autoLoop.simps) (simp add: split_beta)

lemma autoLoop_next:
  "step \<le> 3 \<Longrightarrow> isSimulating r \<Longrightarrow> fst (handleStepExecution r step w) \<Longrightarrow>
   autoLoop r step w =
     autoLoop r (step + 1) ((snd (handleStepExecution r step w))\<lparr>currentStep := step\<rparr>)"
  by (subst autoLoop.simps) (simp add: split_beta)

lemma autoLoop_frame:
  "clientISN (autoLoop r step w) = clientISN w \<and> serverISN (autoLoop r step w) = serverISN w
   \<and> clientSeq (autoLoop r step w) = clientSeq w \<and> serverSeq (autoLoop r step w) = serverSeq w"
proof (induction r step w rule: autoLoop.induct)
  case (1 r step w)
  show ?case
  proof (cases "step \<le> 3 \<and> isSimulating r")
    case False
    then show ?thesis by (cases "step \<le> 3") (simp_all add: autoLoop_done autoLoop_stale)
  next
    case True
    show ?thesis
    proof (cases "fst (handleStepExecution r step w)")
      case False
      with True show ?thesis by (simp add: autoLoop_break handleStepExecution_frame)
    next
      case ok: True
      have p: "(fst (handleStepExecution r step w), snd (handleStepExecution r step w))
               = handleStepExecution r step w" by simp
      from True have t1: "step \<le> 3" and t2: "\<not> \<not> isSimulating r" by simp_all
      from ok have t3: "\<not> \<not> fst (handleStepExecution r step w)" by simp
      note IH = "1.IH" [OF t1 t2 refl p t3]
      from True ok show ?thesis
        by (simp add: autoLoop_next IH handleStepExecution_frame)
    qed
  qed
qed

lemma auto_run_with_live_flag:
  assumes "isSimulating r" and "packetLoss r = LossNone" and "refsMounted w"
  shows "connectionStatus (startAutoSimulation r w) = Established
       \<and> clientState (startAutoSimulation r w) = ESTABLISHED
       \<and> serverState (startAutoSimulation r w) = ESTABLISHED
       \<and> currentStep (startAutoSimulation r w) = 3"
proof -
  define w0 where "w0 = w\<lparr>isSimulating := True\<rparr>"
  define w1 where "w1 = (snd (handleStepExecution r 1 w0))\<lparr>currentStep := 1\<rparr>"
  define w2 where "w2 = (snd (handleStepExecution r 2 w1))\<lparr>currentStep := 2\<rparr>"
  define w3 where "w3 = (snd (handleStepExecution r 3 w2))\<lparr>currentStep := 3\<rparr>"
  have m0: "refsMounted w0" using assms by (simp add: w0_def)
  then have m1: "refsMounted w1" by (simp add: w1_def handleStepExecution_frame)
  then have m2: "refsMounted w2" by (simp add: w2_def handleStepExecution_frame)
  have ok1: "fst (handleStepExecution r 1 w0)"
    using m0 assms by (simp add: handleStepExecution_none)
  have ok2: "fst (handleStepExecution r 2 w1)"
    using m1 assms by (simp add: handleStepExecution_none)
  have ok3: "fst (handleStepExecution r 3 w2)"
    using m2 assms by (simp add: handleStepExecution_none)
  have "autoLoop r 1 w0 = autoLoop r 2 w1"
    using autoLoop_next [of 1 r w0] assms ok1 by (simp add: w1_def)
  also have "\<dots> = autoLoop r 3 w2"
    using autoLoop_next [of 2 r w1] assms ok2 by (simp add: w2_def)
  also have "\<dots> = autoLoop r 4 w3"
    using autoLoop_next [of 3 r w2] assms ok3 by (simp add: w3_def)
  also have "\<dots> = w3" by (simp add: autoLoop_done)
  finally have run: "startAutoSimulation r w = w3\<lparr>isSimulating := False\<rparr>"
    by (simp add: startAutoSimulation_def w0_def)
  have "connectionStatus (snd (handleStepExecution r 3 w2)) = Established
      \<and> clientState (snd (handleStepExecution r 3 w2)) = ESTABLISHED
      \<and> serverState (snd (handleStepExecution r 3 w2)) = ESTABLISHED"
    using ok3 by (subst (1 2 3) handleStepExecution_shape) simp
  then show ?thesis by (simp add: run w3_def)
qed

text \<open>
  Claim C1, evaluated on the code. After the mount effect the mode is auto, the loss
  policy is none and the references are set. Pressing the main button then calls
  \<open>startAutoSimulation\<close> from a render in which \<open>isSimulating\<close> is false, so the test
  at the top of the loop body leaves the loop before step 1: the world is unchanged,
  the status is still idle, both endpoints are still CLOSED, the step counter is still 0
  and no packet is logged. The lemma \<open>auto_run_with_live_flag\<close> above shows what the same
  loop does in a render whose \<open>isSimulating\<close> is true: it runs the three steps and ends
  established.
\<close>

theorem auto_run_executes_no_step:
  "simulationMode (mounted f) = Auto
   \<and> packetLoss (mounted f) = LossNone
   \<and> refsMounted (mounted f)
   \<and> perform ClickMain (mounted f) = mounted f
   \<and> connectionStatus (perform ClickMain (mounted f)) = Idle
   \<and> clientState (perform ClickMain (mounted f)) = CLOSED
   \<and> serverState (perform ClickMain (mounted f)) = CLOSED
   \<and> currentStep (perform ClickMain (mounted f)) = 0
   \<and> logs (perform ClickMain (mounted f)) = [\<lparr>message = MsgReset, severity = Info\<rparr>]"
proof -
  have "startAutoSimulation (mounted f) (mounted f) = (mounted f)\<lparr>isSimulating := False\<rparr>"
    by (rule startAutoSimulation_stale) (simp add: mounted_fields)
  also have "\<dots> = mounted f"
    using mounted_fields(6) [of f] by simp
  finally have "perform ClickMain (mounted f) = mounted f"
    by (simp add: mounted_fields)
  then show ?thesis by (simp add: mounted_fields)
qed

section \<open>The step executor\<close>

lemma simple_animatePacket_shape:
  "snd (simple_animatePacket r p w) =
     w\<lparr>sLogs := sLogs (snd (simple_animatePacket r p w)),
        sDraws := sDraws (snd (simple_animatePacket r p w))\<rparr>"
  by (simp add: simple_animatePacket_def simple_shouldDropPacket_def simple_mathRandom_def
        simple_addLog_def)

lemma simple_executeStep_pre:
  "sClientState (snd (simple_executeStep r 1 w)) = SYN_SENT"
  "sConnectionStatus (snd (simple_executeStep r 1 w)) = Connecting"
  "sServerState (snd (simple_executeStep r 2 w)) = SYN_RECEIVED"
  unfolding simple_executeStep_def
  by (simp, subst simple_animatePacket_shape, simp)+

lemma simple_executeStep_none:
  "sPacketLoss r = LossNone \<Longrightarrow> sRefsMounted w \<Longrightarrow> fst (simple_executeStep r 2 w)"
  by (simp add: simple_executeStep_def simple_animatePacket_def simple_shouldDropPacket_def)

text \<open>
  Claim C6. An attempt of step 1 that fails leaves the client in SYN-SENT and the status
  connecting, and an attempt of step 2 that fails leaves the server in SYN-RECEIVED: the
  state written before the packet is sent is not taken back. In particular, when the
  references are set and the loss oracle drops the SYN (or the SYN-ACK), the attempt
  fails, the endpoint is in the advanced state right after it, and the log has gained
  the loss entry.
\<close>

theorem optimistic_pre_transition:
  "(\<not> fst (executeStep r 1 w) \<longrightarrow>
      clientState (snd (executeStep r 1 w)) = SYN_SENT
      \<and> connectionStatus (snd (executeStep r 1 w)) = Connecting)
   \<and> (\<not> fst (executeStep r 2 w) \<longrightarrow>
      serverState (snd (executeStep r 2 w)) = SYN_RECEIVED)
   \<and> (refsMounted w \<and> fst (shouldDropPacket r (typeTag SYN) w) \<longrightarrow>
      \<not> fst (executeStep r 1 w)
      \<and> clientState (snd (executeStep r 1 w)) = SYN_SENT
      \<and> connectionStatus (snd (executeStep r 1 w)) = Connecting
      \<and> logs (snd (executeStep r 1 w)) = logs w @ [\<lparr>message = MsgLost SYN, severity = Error\<rparr>])
   \<and> (refsMounted w \<and> fst (shouldDropPacket r (typeTag SYN_ACK) w) \<longrightarrow>
      \<not> fst (executeStep r 2 w)
      \<and> serverState (snd (executeStep r 2 w)) = SYN_RECEIVED
      \<and> logs (snd (executeStep r 2 w)) =
          logs w @ [\<lparr>message = MsgLost SYN_ACK, severity = Error\<rparr>])"
proof (intro conjI impI)
  show "clientState (snd (executeStep r 1 w)) = SYN_SENT"
    by (subst executeStep_shape) simp
  show "connectionStatus (snd (executeStep r 1 w)) = Connecting"
    by (subst executeStep_shape) simp
  show "serverState (snd (executeStep r 2 w)) = SYN_RECEIVED"
    by (subst executeStep_shape) simp
next
  assume a: "refsMounted w \<and> fst (shouldDropPacket r (typeTag SYN) w)"
  then have e: "executeStep r 1 w =
     (False, (if (1::int) = 1 then w\<lparr>clientState := SYN_SENT, connectionStatus := Connecting\<rparr>
              else if (1::int) = 2 then w\<lparr>serverState := SYN_RECEIVED\<rparr> else w)
             \<lparr>logs := logs w @ [\<lparr>message = MsgLost SYN, severity = Error\<rparr>],
              draws := (if packetLoss r = LossRandom then draws w + 1 else draws w)\<rparr>)"
    by (intro executeStep_dropped) simp_all
  show "\<not> fst (executeStep r 1 w)" by (simp add: e)
  show "clientState (snd (executeStep r 1 w)) = SYN_SENT" by (simp add: e)
  show "connectionStatus (snd (executeStep r 1 w)) = Connecting" by (simp add: e)
  show "logs (snd (executeStep r 1 w)) = logs w @ [\<lparr>message = MsgLost SYN, severity = Error\<rparr>]"
    by (simp add: e)
next
  assume a: "refsMounted w \<and> fst (shouldDropPacket r (typeTag SYN_ACK) w)"
  then have e: "executeStep r 2 w =
     (False, (if (2::int) = 1 then w\<lparr>clientState := SYN_SENT, connectionStatus := Connecting\<rparr>
              else if (2::int) = 2 then w\<lparr>serverState := SYN_RECEIVED\<rparr> else w)
             \<lparr>logs := logs w @ [\<lparr>message = MsgLost SYN_ACK, severity = Error\<rparr>],
              draws := (if packetLoss r = LossRandom then draws w + 1 else draws w)\<rparr>)"
    by (intro executeStep_dropped) simp_all
  show "\<not> fst (executeStep r 2 w)" by (simp add: e)
  show "serverState (snd (executeStep r 2 w)) = SYN_RECEIVED" by (simp add: e)
  show "logs (snd (executeStep r 2 w)) =
          logs w @ [\<lparr>message = MsgLost SYN_ACK, severity = Error\<rparr>]"
    by (simp add: e)
qed

theorem optimistic_pre_transition_witness:
  "refsMounted (perform (SetPacketLoss LossSyn) (mounted zeroDraws))
   \<and> fst (shouldDropPacket (perform (SetPacketLoss LossSyn) (mounted zeroDraws)) (typeTag SYN)
            (perform (SetPacketLoss LossSyn) (mounted zeroDraws)))
   \<and> clientState (perform (SetPacketLoss LossSyn) (mounted zeroDraws)) = CLOSED
   \<and> \<not> fst (executeStep (perform (SetPacketLoss LossSyn) (mounted zeroDraws)) 1
              (perform (SetPacketLoss LossSyn) (mounted zeroDraws)))
   \<and> clientState (snd (executeStep (perform (SetPacketLoss LossSyn) (mounted zeroDraws)) 1
              (perform (SetPacketLoss LossSyn) (mounted zeroDraws)))) = SYN_SENT
   \<and> connectionStatus (snd (executeStep (perform (SetPacketLoss LossSyn) (mounted zeroDraws)) 1
              (perform (SetPacketLoss LossSyn) (mounted zeroDraws)))) = Connecting
   \<and> refsMounted (perform (SetPacketLoss LossSynAck) (mounted zeroDraws))
   \<and> fst (shouldDropPacket (perform (SetPacketLoss LossSynAck) (mounted zeroDraws)) (typeTag SYN_ACK)
            (perform (SetPacketLoss LossSynAck) (mounted zeroDraws)))
   \<and> \<not> fst (executeStep (perform (SetPacketLoss LossSynAck) (mounted zeroDraws)) 2
              (perform (SetPacketLoss LossSynAck) (mounted zeroDraws)))
   \<and> serverState (snd (executeStep (perform (SetPacketLoss LossSynAck) (mounted zeroDraws)) 2
              (perform (SetPacketLoss LossSynAck) (mounted zeroDraws)))) = SYN_RECEIVED"
proof -
  define W where "W = perform (SetPacketLoss LossSyn) (mounted zeroDraws)"
  define V where "V = perform (SetPacketLoss LossSynAck) (mounted zeroDraws)"
  have h: "refsMounted W \<and> fst (shouldDropPacket W (typeTag SYN) W)"
    unfolding W_def by code_simp
  have c: "clientState W = CLOSED"
    unfolding W_def by code_simp
  have k: "refsMounted V \<and> fst (shouldDropPacket V (typeTag SYN_ACK) V)"
    unfolding V_def by code_simp
  from optimistic_pre_transition [of W W] h
  have a: "\<not> fst (executeStep W 1 W) \<and> clientState (snd (executeStep W 1 W)) = SYN_SENT
      \<and> connectionStatus (snd (executeStep W 1 W)) = Connecting" by blast
  from optimistic_pre_transition [of V V] k
  have b: "\<not> fst (executeStep V 2 V) \<and> serverState (snd (executeStep V 2 V)) = SYN_RECEIVED"
    by blast
  from h c k a b show ?thesis unfolding W_def V_def by blast
qed

text \<open>
  Claim C10. \<open>executeStep\<close> looks at no endpoint state and at no status. Whatever the
  current states are, step 1 leaves the client in SYN-SENT and the status connecting, and
  step 2 leaves the server in SYN-RECEIVED; the result of any step is the same when the
  three state fields are replaced by arbitrary values; and with the policy none and the
  references set, step 2 succeeds, whether or not step 1 was run before. The step
  executor of the simple variant behaves the same way.
\<close>

theorem executeStep_checks_no_precondition:
  "clientState (snd (executeStep r 1 w)) = SYN_SENT
   \<and> connectionStatus (snd (executeStep r 1 w)) = Connecting
   \<and> serverState (snd (executeStep r 2 w)) = SYN_RECEIVED
   \<and> fst (executeStep r step (w\<lparr>clientState := c, serverState := s, connectionStatus := t\<rparr>))
       = fst (executeStep r step w)
   \<and> (packetLoss r = LossNone \<and> refsMounted w \<longrightarrow> fst (executeStep r 2 w))
   \<and> sClientState (snd (simple_executeStep r' 1 w')) = SYN_SENT
   \<and> sConnectionStatus (snd (simple_executeStep r' 1 w')) = Connecting
   \<and> sServerState (snd (simple_executeStep r' 2 w')) = SYN_RECEIVED
   \<and> (sPacketLoss r' = LossNone \<and> sRefsMounted w' \<longrightarrow> fst (simple_executeStep r' 2 w'))"
proof (intro conjI impI)
  show "clientState (snd (executeStep r 1 w)) = SYN_SENT"
    by (subst executeStep_shape) simp
  show "connectionStatus (snd (executeStep r 1 w)) = Connecting"
    by (subst executeStep_shape) simp
  show "serverState (snd (executeStep r 2 w)) = SYN_RECEIVED"
    by (subst executeStep_shape) simp
  show "fst (executeStep r step (w\<lparr>clientState := c, serverState := s, connectionStatus := t\<rparr>))
       = fst (executeStep r step w)"
    by (simp add: executeStep_def animatePacket_fst split_beta shouldDropPacket_lit
          synPacket_def synAckPacket_def ackPacket_def split: PacketLoss.split)
  show "sClientState (snd (simple_executeStep r' 1 w')) = SYN_SENT"
    and "sConnectionStatus (snd (simple_executeStep r' 1 w')) = Connecting"
    and "sServerState (snd (simple_executeStep r' 2 w')) = SYN_RECEIVED"
    by (rule simple_executeStep_pre)+
next
  assume "packetLoss r = LossNone \<and> refsMounted w"
  then show "fst (executeStep r 2 w)" by (simp add: executeStep_none)
next
  assume "sPacketLoss r' = LossNone \<and> sRefsMounted w'"
  then show "fst (simple_executeStep r' 2 w')" by (simp add: simple_executeStep_none)
qed

theorem executeStep_checks_no_precondition_witness:
  "packetLoss (mounted zeroDraws) = LossNone
   \<and> refsMounted (mounted zeroDraws)
   \<and> currentStep (mounted zeroDraws) = 0
   \<and> clientState (mounted zeroDraws) = CLOSED
   \<and> fst (executeStep (mounted zeroDraws) 2 (mounted zeroDraws))
   \<and> serverState (snd (executeStep (mounted zeroDraws) 2 (mounted zeroDraws))) = SYN_RECEIVED
   \<and> clientState (snd (executeStep (mounted zeroDraws) 2 (mounted zeroDraws))) = CLOSED
   \<and> sPacketLoss (simple_initialWorld zeroDraws) = LossNone
   \<and> sRefsMounted (simple_initialWorld zeroDraws)
   \<and> sClientState (simple_initialWorld zeroDraws) = CLOSED
   \<and> fst (simple_executeStep (simple_initialWorld zeroDraws) 2 (simple_initialWorld zeroDraws))"
proof -
  have h: "packetLoss (mounted zeroDraws) = LossNone \<and> refsMounted (mounted zeroDraws)"
    by (simp add: mounted_fields)
  have k: "sPacketLoss (simple_initialWorld zeroDraws) = LossNone
      \<and> sRefsMounted (simple_initialWorld zeroDraws)"
    by (simp add: simple_initialWorld_def)
  note inst = executeStep_checks_no_precondition
    [of "mounted zeroDraws" "mounted zeroDraws" _ _ _ _
        "simple_initialWorld zeroDraws" "simple_initialWorld zeroDraws"]
  from inst h
  have ok: "fst (executeStep (mounted zeroDraws) 2 (mounted zeroDraws))
    \<and> serverState (snd (executeStep (mounted zeroDraws) 2 (mounted zeroDraws))) = SYN_RECEIVED"
    by blast
  from inst k
  have sok: "fst (simple_executeStep (simple_initialWorld zeroDraws) 2 (simple_initialWorld zeroDraws))"
    by blast
  have c: "clientState (snd (executeStep (mounted zeroDraws) 2 (mounted zeroDraws))) = CLOSED"
    by (subst executeStep_shape) (simp add: mounted_fields)
  have sc: "sClientState (simple_initialWorld zeroDraws) = CLOSED"
    by (simp add: simple_initialWorld_def)
  from h ok c k sok sc show ?thesis by (simp add: mounted_fields)
qed

section \<open>Sequence numbers\<close>

lemma executeStep_delivered_2:
  "fst (executeStep r 2 w) \<Longrightarrow>
   logs (snd (executeStep r 2 w)) = logs w @ [\<lparr>message = MsgSent (synAckPacket r), severity = Info\<rparr>]"
  by (simp add: executeStep_2 animatePacket_def split_beta addLog_def shouldDropPacket_kind
        split: if_splits PacketLoss.splits)

lemma executeStep_delivered_3:
  "fst (executeStep r 3 w) \<Longrightarrow>
   logs (snd (executeStep r 3 w)) =
     logs w @ [\<lparr>message = MsgSent (ackPacket r), severity = Info\<rparr>,
               \<lparr>message = MsgEstablished, severity = Success\<rparr>]"
  by (simp add: executeStep_3_fst executeStep_3_snd animatePacket_def split_beta addLog_def
        shouldDropPacket_kind split: if_splits PacketLoss.splits)

text \<open>
  Claim C4. The packet of step 2 is a SYN-ACK whose acknowledgment number is the client's
  current sequence number plus one; the packet of step 3 is an ACK whose sequence number
  is the client's current sequence number plus one and whose acknowledgment number is
  the server's current sequence number plus one. When the step is delivered, exactly
  that packet is appended to the log. With current sequence numbers 1000 and 2000 the
  numbers are 1001, and 1001 and 2001.
\<close>

theorem sequence_number_law:
  "executeStep r 2 w = animatePacket r (synAckPacket r) (w\<lparr>serverState := SYN_RECEIVED\<rparr>)
   \<and> ptype (synAckPacket r) = SYN_ACK
   \<and> ack (synAckPacket r) = Some (clientSeq r + 1)
   \<and> fst (executeStep r 3 w) = fst (animatePacket r (ackPacket r) w)
   \<and> ptype (ackPacket r) = ACK
   \<and> seq (ackPacket r) = Some (clientSeq r + 1)
   \<and> ack (ackPacket r) = Some (serverSeq r + 1)
   \<and> (fst (executeStep r 2 w) \<longrightarrow>
        logs (snd (executeStep r 2 w)) =
          logs w @ [\<lparr>message = MsgSent (synAckPacket r), severity = Info\<rparr>])
   \<and> (fst (executeStep r 3 w) \<longrightarrow>
        logs (snd (executeStep r 3 w)) =
          logs w @ [\<lparr>message = MsgSent (ackPacket r), severity = Info\<rparr>,
                    \<lparr>message = MsgEstablished, severity = Success\<rparr>])
   \<and> (clientSeq r = 1000 \<and> serverSeq r = 2000 \<longrightarrow>
        ack (synAckPacket r) = Some 1001
        \<and> seq (ackPacket r) = Some 1001
        \<and> ack (ackPacket r) = Some 2001)"
proof (intro conjI impI)
  show "executeStep r 2 w = animatePacket r (synAckPacket r) (w\<lparr>serverState := SYN_RECEIVED\<rparr>)"
    by (rule executeStep_2)
  show "fst (executeStep r 3 w) = fst (animatePacket r (ackPacket r) w)"
    by (rule executeStep_3_fst)
  show "ptype (synAckPacket r) = SYN_ACK" and "ack (synAckPacket r) = Some (clientSeq r + 1)"
    by (simp_all add: synAckPacket_def)
  show "ptype (ackPacket r) = ACK" and "seq (ackPacket r) = Some (clientSeq r + 1)"
    and "ack (ackPacket r) = Some (serverSeq r + 1)"
    by (simp_all add: ackPacket_def)
next
  assume "fst (executeStep r 2 w)"
  then show "logs (snd (executeStep r 2 w)) =
          logs w @ [\<lparr>message = MsgSent (synAckPacket r), severity = Info\<rparr>]"
    by (rule executeStep_delivered_2)
next
  assume "fst (executeStep r 3 w)"
  then show "logs (snd (executeStep r 3 w)) =
          logs w @ [\<lparr>message = MsgSent (ackPacket r), severity = Info\<rparr>,
                    \<lparr>message = MsgEstablished, severity = Success\<rparr>]"
    by (rule executeStep_delivered_3)
next
  assume a: "clientSeq r = 1000 \<and> serverSeq r = 2000"
  then show "ack (synAckPacket r) = Some 1001" by (simp add: synAckPacket_def)
  from a show "seq (ackPacket r) = Some 1001" by (simp add: ackPacket_def)
  from a show "ack (ackPacket r) = Some 2001" by (simp add: ackPacket_def)
qed

theorem sequence_number_law_witness:
  "clientSeq (mounted tenthDraws) = 1000
   \<and> serverSeq (mounted tenthDraws) = 2000
   \<and> clientISN (mounted tenthDraws) = 1000
   \<and> serverISN (mounted tenthDraws) = 2000
   \<and> ack (synAckPacket (mounted tenthDraws)) = Some 1001
   \<and> seq (ackPacket (mounted tenthDraws)) = Some 1001
   \<and> ack (ackPacket (mounted tenthDraws)) = Some 2001
   \<and> fst (executeStep (mounted tenthDraws) 2 (mounted tenthDraws))
   \<and> logs (snd (executeStep (mounted tenthDraws) 2 (mounted tenthDraws))) =
        [\<lparr>message = MsgReset, severity = Info\<rparr>,
         \<lparr>message = MsgSent \<lparr>ptype = SYN_ACK, seq = Some 2000, ack = Some 1001,
                               direction = ServerToClient\<rparr>, severity = Info\<rparr>]"
proof -
  have h: "clientSeq (mounted tenthDraws) = 1000 \<and> serverSeq (mounted tenthDraws) = 2000"
    by (simp add: mounted_fields tenthDraws_def doubleMul_values)
  have i: "clientISN (mounted tenthDraws) = 1000 \<and> serverISN (mounted tenthDraws) = 2000"
    by (simp add: mounted_fields tenthDraws_def doubleMul_values)
  have ok: "fst (executeStep (mounted tenthDraws) 2 (mounted tenthDraws))"
    by (simp add: executeStep_none mounted_fields)
  note law = sequence_number_law [of "mounted tenthDraws" "mounted tenthDraws"]
  from law h have p: "ack (synAckPacket (mounted tenthDraws)) = Some 1001
   \<and> seq (ackPacket (mounted tenthDraws)) = Some 1001
   \<and> ack (ackPacket (mounted tenthDraws)) = Some 2001" by blast
  from law ok have "logs (snd (executeStep (mounted tenthDraws) 2 (mounted tenthDraws))) =
          logs (mounted tenthDraws) @ [\<lparr>message = MsgSent (synAckPacket (mounted tenthDraws)), severity = Info\<rparr>]"
    by blast
  then have l: "logs (snd (executeStep (mounted tenthDraws) 2 (mounted tenthDraws))) =
        [\<lparr>message = MsgReset, severity = Info\<rparr>,
         \<lparr>message = MsgSent \<lparr>ptype = SYN_ACK, seq = Some 2000, ack = Some 1001,
                               direction = ServerToClient\<rparr>, severity = Info\<rparr>]"
    using h by (simp add: mounted_fields synAckPacket_def)
  from h i p ok l show ?thesis by blast
qed

text \<open>
  A whole handshake in step mode, with initial sequence numbers 1000 and 2000: the log
  holds the three packets in order.
\<close>

lemma step_mode_run_log:
  "logs (performAll [SetSimulationMode Step, ClickMain, ClickMain, ClickMain] (mounted tenthDraws)) =
     [\<lparr>message = MsgReset, severity = Info\<rparr>,
      \<lparr>message = MsgSent \<lparr>ptype = SYN, seq = Some 1000, ack = None,
                            direction = ClientToServer\<rparr>, severity = Info\<rparr>,
      \<lparr>message = MsgSent \<lparr>ptype = SYN_ACK, seq = Some 2000, ack = Some 1001,
                            direction = ServerToClient\<rparr>, severity = Info\<rparr>,
      \<lparr>message = MsgSent \<lparr>ptype = ACK, seq = Some 1001, ack = Some 2001,
                            direction = ClientToServer\<rparr>, severity = Info\<rparr>,
      \<lparr>message = MsgEstablished, severity = Success\<rparr>]"
  by code_simp

lemma generateISN_env:
  "refsMounted (snd (generateISN r w)) = refsMounted w" "rnd (snd (generateISN r w)) = rnd w"
  "draws (snd (generateISN r w)) = (if randomizeISN r then draws w + 1 else draws w)"
  "fst (generateISN r w) =
     (if randomizeISN r then \<lfloor>doubleMul (rnd w (draws w)) 10000\<rfloor> + 1000 else 1000)"
  by (simp_all add: generateISN_def mathRandom_def)

lemma resetSimulation_fields:
  "clientState (resetSimulation r w) = CLOSED" "serverState (resetSimulation r w) = CLOSED"
  "connectionStatus (resetSimulation r w) = Idle" "currentStep (resetSimulation r w) = 0"
  "retryCount (resetSimulation r w) = 0" "isSimulating (resetSimulation r w) = False"
  "logs (resetSimulation r w) = [\<lparr>message = MsgReset, severity = Info\<rparr>]"
  "clientISN (resetSimulation r w) = fst (generateISN r w)"
  "serverISN (resetSimulation r w) = fst (generateISN r (snd (generateISN r w)))"
  "clientSeq (resetSimulation r w) = clientISN (resetSimulation r w)"
  "serverSeq (resetSimulation r w) = serverISN (resetSimulation r w)"
  by (simp_all add: resetSimulation_def generateISN_def mathRandom_def addLog_def Let_def
        split_beta)

lemma executeNextStep_frame:
  "clientISN (executeNextStep r w) = clientISN w \<and> serverISN (executeNextStep r w) = serverISN w
   \<and> clientSeq (executeNextStep r w) = clientSeq w \<and> serverSeq (executeNextStep r w) = serverSeq w"
  by (simp add: executeNextStep_def Let_def split_beta handleStepExecution_frame)

lemma startAutoSimulation_frame:
  "clientISN (startAutoSimulation r w) = clientISN w \<and> serverISN (startAutoSimulation r w) = serverISN w
   \<and> clientSeq (startAutoSimulation r w) = clientSeq w \<and> serverSeq (startAutoSimulation r w) = serverSeq w"
  by (simp add: startAutoSimulation_def autoLoop_frame)

lemma perform_frame:
  "a \<noteq> ClickReset \<Longrightarrow>
   clientISN (perform a w) = clientISN w \<and> serverISN (perform a w) = serverISN w
   \<and> clientSeq (perform a w) = clientSeq w \<and> serverSeq (perform a w) = serverSeq w"
  by (cases a) (simp_all add: executeNextStep_frame startAutoSimulation_frame)

lemma perform_seq_invariant:
  assumes "clientSeq w = clientISN w \<and> serverSeq w = serverISN w"
  shows "clientSeq (perform a w) = clientISN (perform a w)
       \<and> serverSeq (perform a w) = serverISN (perform a w)"
proof (cases "a = ClickReset")
  case True
  with assms show ?thesis by (simp add: resetSimulation_fields)
next
  case False
  with perform_frame [OF False, of w] assms show ?thesis by simp
qed

lemma performAll_seq_invariant:
  "clientSeq w = clientISN w \<and> serverSeq w = serverISN w \<Longrightarrow>
   clientSeq (performAll as w) = clientISN (performAll as w)
   \<and> serverSeq (performAll as w) = serverISN (performAll as w)"
proof (induction as arbitrary: w)
  case Nil
  then show ?case by simp
next
  case (Cons a as)
  from Cons.IH [OF perform_seq_invariant [OF Cons.prems]] show ?case by simp
qed

text \<open>
  Claim C7, as the code has it. After a reset the current sequence numbers equal the
  initial sequence numbers. No control other than the reset button writes any of the four
  numbers, so in every state reachable from the mounted component the stored current
  sequence numbers still equal the initial ones: they are not advanced when a SYN is
  acknowledged. The numbers plus one appear only inside the packets of steps 2 and 3.
\<close>

theorem stored_sequence_numbers:
  "clientSeq (resetSimulation r w) = clientISN (resetSimulation r w)
   \<and> serverSeq (resetSimulation r w) = serverISN (resetSimulation r w)
   \<and> (a \<noteq> ClickReset \<longrightarrow>
        clientSeq (perform a w) = clientSeq w \<and> serverSeq (perform a w) = serverSeq w
        \<and> clientISN (perform a w) = clientISN w \<and> serverISN (perform a w) = serverISN w)
   \<and> clientSeq (performAll as (mounted f)) = clientISN (performAll as (mounted f))
   \<and> serverSeq (performAll as (mounted f)) = serverISN (performAll as (mounted f))"
proof -
  have m: "clientSeq (mounted f) = clientISN (mounted f) \<and> serverSeq (mounted f) = serverISN (mounted f)"
    by (simp add: mounted_fields)
  from performAll_seq_invariant [OF m, of as] perform_frame [of a w]
  show ?thesis by (simp add: resetSimulation_fields)
qed

theorem stored_sequence_numbers_witness:
  "ClickMain \<noteq> ClickReset
   \<and> currentStep (performAll [SetSimulationMode Step, ClickMain] (mounted zeroDraws)) = 1
   \<and> currentStep (perform ClickMain
        (performAll [SetSimulationMode Step, ClickMain] (mounted zeroDraws))) = 2
   \<and> clientSeq (perform ClickMain
        (performAll [SetSimulationMode Step, ClickMain] (mounted zeroDraws))) =
      clientSeq (performAll [SetSimulationMode Step, ClickMain] (mounted zeroDraws))
   \<and> clientSeq (performAll [SetSimulationMode Step, ClickMain] (mounted zeroDraws)) = 1000"
proof -
  define W where "W = performAll [SetSimulationMode Step, ClickMain] (mounted zeroDraws)"
  have n: "ClickMain \<noteq> ClickReset" by simp
  have c: "currentStep W = 1 \<and> currentStep (perform ClickMain W) = 2 \<and> clientSeq W = 1000"
    unfolding W_def by code_simp
  from stored_sequence_numbers [of W W ClickMain "[]" zeroDraws] n
  have "clientSeq (perform ClickMain W) = clientSeq W" by blast
  with n c show ?thesis unfolding W_def by blast
qed

theorem stored_sequence_numbers_counterexample:
  "currentStep (performAll [SetSimulationMode Step, ClickMain, ClickMain] (mounted zeroDraws)) = 2
   \<and> clientISN (performAll [SetSimulationMode Step, ClickMain, ClickMain] (mounted zeroDraws)) = 1000
   \<and> clientSeq (performAll [SetSimulationMode Step, ClickMain, ClickMain] (mounted zeroDraws)) = 1000
   \<and> clientSeq (performAll [SetSimulationMode Step, ClickMain, ClickMain] (mounted zeroDraws))
       \<noteq> clientISN (performAll [SetSimulationMode Step, ClickMain, ClickMain] (mounted zeroDraws)) + 1
   \<and> connectionStatus
        (performAll [SetSimulationMode Step, ClickMain, ClickMain, ClickMain] (mounted zeroDraws))
       = Established
   \<and> serverSeq
        (performAll [SetSimulationMode Step, ClickMain, ClickMain, ClickMain] (mounted zeroDraws))
       \<noteq> serverISN
        (performAll [SetSimulationMode Step, ClickMain, ClickMain, ClickMain] (mounted zeroDraws)) + 1"
  by code_simp

section \<open>Reset\<close>

text \<open>
  Claim C8, as the code has it. After a reset both endpoints are CLOSED, the status is
  idle, the step counter and the retry counter are 0, the run flag is off, the initial
  sequence numbers are generated anew and the current ones are set to them, and the log
  holds exactly one entry, the notice of the reset (it is cleared and then written to).
  A second reset right after the first gives the same endpoint states, status, counters
  and log.
\<close>

theorem reset_postcondition:
  "observable (resetSimulation r w) =
     (CLOSED, CLOSED, Idle, 0, 0, [\<lparr>message = MsgReset, severity = Info\<rparr>])
   \<and> isSimulating (resetSimulation r w) = False
   \<and> clientISN (resetSimulation r w) = fst (generateISN r w)
   \<and> serverISN (resetSimulation r w) = fst (generateISN r (snd (generateISN r w)))
   \<and> clientSeq (resetSimulation r w) = clientISN (resetSimulation r w)
   \<and> serverSeq (resetSimulation r w) = serverISN (resetSimulation r w)
   \<and> observable (resetSimulation r' (resetSimulation r w)) = observable (resetSimulation r w)"
  by (simp add: observable_def resetSimulation_fields)

theorem reset_postcondition_counterexample:
  "logs (perform ClickReset (mounted zeroDraws)) = [\<lparr>message = MsgReset, severity = Info\<rparr>]
   \<and> logs (perform ClickReset (mounted zeroDraws)) \<noteq> []"
  by (simp add: mounted_fields resetSimulation_fields)

section \<open>Generation of initial sequence numbers\<close>

text \<open>
  Claim C3, as the code has it. \<open>generateISN\<close> returns 1000 when randomisation is off
  and, when it is on, 1000 plus the integer part of the product of the draw with 10000,
  the product being the rounded double product; for a draw that is a double of the unit
  interval this lies between 1000 and 10999. The client's initial sequence number after
  a reset is that value. In the simple variant the two initial sequence numbers are
  computed once, at the first render, where randomisation is on: the client's lies
  between 1000 and 10999 and the server's, computed from the base 2000, between 2000 and
  11999. Nothing makes the two numbers differ.
\<close>

theorem isn_generation:
  "fst (generateISN r w) =
     (if randomizeISN r then \<lfloor>doubleMul (rnd w (draws w)) 10000\<rfloor> + 1000 else 1000)
   \<and> clientISN (resetSimulation r w) = fst (generateISN r w)
   \<and> (\<not> randomizeISN r \<longrightarrow> clientISN (resetSimulation r w) = 1000)
   \<and> (isDouble (rnd w (draws w)) \<and> 0 \<le> rnd w (draws w) \<and> rnd w (draws w) < 1 \<longrightarrow>
        1000 \<le> fst (generateISN r w) \<and> fst (generateISN r w) \<le> 10999
        \<and> 1000 \<le> clientISN (resetSimulation r w) \<and> clientISN (resetSimulation r w) \<le> 10999)
   \<and> (isDouble (f 0) \<and> 0 \<le> f 0 \<and> f 0 < 1 \<longrightarrow>
        1000 \<le> sClientISN (simple_initialWorld f)
        \<and> sClientISN (simple_initialWorld f) \<le> 10999)
   \<and> (isDouble (f 1) \<and> 0 \<le> f 1 \<and> f 1 < 1 \<longrightarrow>
        2000 \<le> sServerISN (simple_initialWorld f)
        \<and> sServerISN (simple_initialWorld f) \<le> 11999)"
proof -
  have range: "0 \<le> \<lfloor>doubleMul u 10000\<rfloor> \<and> \<lfloor>doubleMul u 10000\<rfloor> \<le> 9999"
    if "isDouble u \<and> 0 \<le> u \<and> u < 1" for u
  proof -
    from that have "u \<le> 1 - 1 / 2 ^ 53" by (intro double_below_one) simp_all
    with that show ?thesis by (intro doubleMul_random_range) simp_all
  qed
  have primary: "isDouble (rnd w (draws w)) \<and> 0 \<le> rnd w (draws w) \<and> rnd w (draws w) < 1 \<longrightarrow>
        1000 \<le> fst (generateISN r w) \<and> fst (generateISN r w) \<le> 10999
        \<and> 1000 \<le> clientISN (resetSimulation r w) \<and> clientISN (resetSimulation r w) \<le> 10999"
    using range [of "rnd w (draws w)"]
    by (auto simp add: resetSimulation_fields generateISN_env)
  have client: "isDouble (f 0) \<and> 0 \<le> f 0 \<and> f 0 < 1 \<longrightarrow>
        1000 \<le> sClientISN (simple_initialWorld f)
        \<and> sClientISN (simple_initialWorld f) \<le> 10999"
    using range [of "f 0"] by (auto simp add: simple_initialWorld_def simple_clientISN_def)
  have server: "isDouble (f 1) \<and> 0 \<le> f 1 \<and> f 1 < 1 \<longrightarrow>
        2000 \<le> sServerISN (simple_initialWorld f)
        \<and> sServerISN (simple_initialWorld f) \<le> 11999"
    using range [of "f 1"] by (auto simp add: simple_initialWorld_def simple_serverISN_def)
  have fixed: "fst (generateISN r w) =
     (if randomizeISN r then \<lfloor>doubleMul (rnd w (draws w)) 10000\<rfloor> + 1000 else 1000)
   \<and> clientISN (resetSimulation r w) = fst (generateISN r w)
   \<and> (\<not> randomizeISN r \<longrightarrow> clientISN (resetSimulation r w) = 1000)"
    by (simp add: resetSimulation_fields generateISN_env)
  from fixed primary client server show ?thesis by blast
qed

theorem isn_generation_witness:
  "\<not> randomizeISN (perform (SetRandomizeISN False) (mounted zeroDraws))
   \<and> clientISN (resetSimulation (perform (SetRandomizeISN False) (mounted zeroDraws))
                  (perform (SetRandomizeISN False) (mounted zeroDraws))) = 1000
   \<and> randomizeISN (mounted tenthDraws)
   \<and> isDouble (rnd (mounted tenthDraws) (draws (mounted tenthDraws)))
   \<and> 0 \<le> rnd (mounted tenthDraws) (draws (mounted tenthDraws))
   \<and> rnd (mounted tenthDraws) (draws (mounted tenthDraws)) < 1
   \<and> clientISN (resetSimulation (mounted tenthDraws) (mounted tenthDraws)) = 2000
   \<and> 1000 \<le> clientISN (resetSimulation (mounted tenthDraws) (mounted tenthDraws))
   \<and> clientISN (resetSimulation (mounted tenthDraws) (mounted tenthDraws)) \<le> 10999
   \<and> isDouble (tenthDraws 0) \<and> 0 \<le> tenthDraws 0 \<and> tenthDraws 0 < 1
   \<and> isDouble (tenthDraws 1) \<and> 0 \<le> tenthDraws 1 \<and> tenthDraws 1 < 1
   \<and> sClientISN (simple_initialWorld tenthDraws) = 1000
   \<and> sServerISN (simple_initialWorld tenthDraws) = 3000
   \<and> 2000 \<le> sServerISN (simple_initialWorld tenthDraws)
   \<and> sServerISN (simple_initialWorld tenthDraws) \<le> 11999"
proof -
  define W where "W = perform (SetRandomizeISN False) (mounted zeroDraws)"
  have a: "\<not> randomizeISN W" unfolding W_def by (simp add: mounted_fields)
  have b: "randomizeISN (mounted tenthDraws)" by (simp add: mounted_fields)
  have c: "isDouble (rnd (mounted tenthDraws) (draws (mounted tenthDraws)))
     \<and> 0 \<le> rnd (mounted tenthDraws) (draws (mounted tenthDraws))
     \<and> rnd (mounted tenthDraws) (draws (mounted tenthDraws)) < 1"
    by (simp add: mounted_fields tenthDraws_def doubleMul_values)
  have d0: "isDouble (tenthDraws 0) \<and> 0 \<le> tenthDraws 0 \<and> tenthDraws 0 < 1"
    by (simp add: tenthDraws_def doubleMul_values)
  have d1: "isDouble (tenthDraws 1) \<and> 0 \<le> tenthDraws 1 \<and> tenthDraws 1 < 1"
    by (simp add: tenthDraws_def doubleMul_values)
  note inst = isn_generation [of "mounted tenthDraws" "mounted tenthDraws" tenthDraws]
  from isn_generation [of W W] a have e: "clientISN (resetSimulation W W) = 1000" by blast
  from inst c
  have g: "1000 \<le> clientISN (resetSimulation (mounted tenthDraws) (mounted tenthDraws))
     \<and> clientISN (resetSimulation (mounted tenthDraws) (mounted tenthDraws)) \<le> 10999" by blast
  from inst d1
  have h: "2000 \<le> sServerISN (simple_initialWorld tenthDraws)
     \<and> sServerISN (simple_initialWorld tenthDraws) \<le> 11999" by blast
  have i: "clientISN (resetSimulation (mounted tenthDraws) (mounted tenthDraws)) = 2000"
    by (simp add: resetSimulation_fields generateISN_env mounted_fields tenthDraws_def
          doubleMul_values)
  have j: "sClientISN (simple_initialWorld tenthDraws) = 1000
     \<and> sServerISN (simple_initialWorld tenthDraws) = 3000"
    by (simp add: simple_initialWorld_def simple_clientISN_def simple_serverISN_def
          tenthDraws_def doubleMul_values)
  from a b c d0 d1 e g h i j show ?thesis unfolding W_def by blast
qed

theorem isn_generation_counterexample:
  "randomizeISN (performAll [SetRandomizeISN False, ClickReset] (mounted zeroDraws)) = False
   \<and> clientISN (performAll [SetRandomizeISN False, ClickReset] (mounted zeroDraws)) = 1000
   \<and> serverISN (performAll [SetRandomizeISN False, ClickReset] (mounted zeroDraws)) = 1000
   \<and> serverISN (performAll [SetRandomizeISN False, ClickReset] (mounted zeroDraws)) \<noteq> 2000
   \<and> clientISN (performAll [SetRandomizeISN False, ClickReset] (mounted zeroDraws))
       = serverISN (performAll [SetRandomizeISN False, ClickReset] (mounted zeroDraws))
   \<and> randomizeISN (mounted zeroDraws) = True
   \<and> clientISN (mounted zeroDraws) = serverISN (mounted zeroDraws)
   \<and> sRandomizeISN (simple_initialWorld tenthFirstDraws) = True
   \<and> sClientISN (simple_initialWorld tenthFirstDraws) = 2000
   \<and> sServerISN (simple_initialWorld tenthFirstDraws) = 2000"
proof -
  have "randomizeISN (performAll [SetRandomizeISN False, ClickReset] (mounted zeroDraws)) = False
   \<and> clientISN (performAll [SetRandomizeISN False, ClickReset] (mounted zeroDraws)) = 1000
   \<and> serverISN (performAll [SetRandomizeISN False, ClickReset] (mounted zeroDraws)) = 1000"
    by code_simp
  moreover have "clientISN (mounted zeroDraws) = serverISN (mounted zeroDraws)"
    by (simp add: mounted_fields zeroDraws_def)
  moreover have "sRandomizeISN (simple_initialWorld tenthFirstDraws) = True
     \<and> sClientISN (simple_initialWorld tenthFirstDraws) = 2000
     \<and> sServerISN (simple_initialWorld tenthFirstDraws) = 2000"
    by (simp add: simple_initialWorld_def simple_clientISN_def simple_serverISN_def
          tenthFirstDraws_def doubleMul_values)
  ultimately show ?thesis by (simp add: mounted_fields)
qed

section \<open>The failed state\<close>

text \<open>
  Claim C5, as the code has it. In a state with status failed and both endpoints FAILED,
  in step mode and with no run active: the configuration controls leave status and
  endpoint states as they are and the reset button gives idle and CLOSED; the main
  button is not blocked. It does nothing when the step counter is 3; otherwise it runs
  the next step through the retry controller. If that step fails again, status and
  endpoints are failed and FAILED afterwards and the step counter is unchanged. If it
  succeeds, the step counter advances and the writes of the step stand: after step 1
  the client is SYN-SENT and the status connecting (the server still FAILED), after
  step 2 the server is SYN-RECEIVED (client and status still failed), after step 3
  both endpoints and the status are established.
\<close>

theorem advance_from_failed:
  assumes "connectionStatus w = Failed" and "clientState w = FAILED" and "serverState w = FAILED"
    and "simulationMode w = Step" and "\<not> isSimulating w"
  shows "(3 \<le> currentStep w \<longrightarrow> perform ClickMain w = w)
   \<and> (currentStep w < 3
        \<and> \<not> fst (handleStepExecution w (currentStep w + 1) (w\<lparr>isSimulating := True\<rparr>)) \<longrightarrow>
        connectionStatus (perform ClickMain w) = Failed
        \<and> clientState (perform ClickMain w) = FAILED
        \<and> serverState (perform ClickMain w) = FAILED
        \<and> currentStep (perform ClickMain w) = currentStep w)
   \<and> (currentStep w < 3
        \<and> fst (handleStepExecution w (currentStep w + 1) (w\<lparr>isSimulating := True\<rparr>)) \<longrightarrow>
        currentStep (perform ClickMain w) = currentStep w + 1
        \<and> (currentStep w = 0 \<longrightarrow>
             clientState (perform ClickMain w) = SYN_SENT
             \<and> connectionStatus (perform ClickMain w) = Connecting
             \<and> serverState (perform ClickMain w) = FAILED)
        \<and> (currentStep w = 1 \<longrightarrow>
             serverState (perform ClickMain w) = SYN_RECEIVED
             \<and> clientState (perform ClickMain w) = FAILED
             \<and> connectionStatus (perform ClickMain w) = Failed)
        \<and> (currentStep w = 2 \<longrightarrow>
             clientState (perform ClickMain w) = ESTABLISHED
             \<and> serverState (perform ClickMain w) = ESTABLISHED
             \<and> connectionStatus (perform ClickMain w) = Established))
   \<and> (a \<noteq> ClickMain \<and> a \<noteq> ClickReset \<longrightarrow>
        connectionStatus (perform a w) = Failed
        \<and> clientState (perform a w) = FAILED
        \<and> serverState (perform a w) = FAILED)
   \<and> connectionStatus (perform ClickReset w) = Idle
   \<and> clientState (perform ClickReset w) = CLOSED
   \<and> serverState (perform ClickReset w) = CLOSED"
proof -
  define h where "h = handleStepExecution w (currentStep w + 1) (w\<lparr>isSimulating := True\<rparr>)"
  have click: "perform ClickMain w =
      (if 3 \<le> currentStep w then w
       else (if fst h then (snd h)\<lparr>currentStep := currentStep w + 1\<rparr> else snd h)
              \<lparr>isSimulating := False\<rparr>)"
    using assms by (simp add: executeNextStep_def Let_def split_beta h_def)
  have shape: "snd h =
     (if fst h
      then (if currentStep w + 1 = 1
            then w\<lparr>isSimulating := True, clientState := SYN_SENT, connectionStatus := Connecting,
                   retryCount := 0, logs := logs (snd h), draws := draws (snd h)\<rparr>
            else if currentStep w + 1 = 2
            then w\<lparr>isSimulating := True, serverState := SYN_RECEIVED, retryCount := 0,
                   logs := logs (snd h), draws := draws (snd h)\<rparr>
            else w\<lparr>isSimulating := True, clientState := ESTABLISHED, serverState := ESTABLISHED,
                   connectionStatus := Established, retryCount := 0,
                   logs := logs (snd h), draws := draws (snd h)\<rparr>)
      else w\<lparr>isSimulating := True, clientState := FAILED, serverState := FAILED,
             connectionStatus := Failed,
             isSimulating := False, retryCount := 3,
             logs := logs (snd h), draws := draws (snd h)\<rparr>)"
    unfolding h_def by (rule handleStepExecution_shape)
  have fields: "clientState (snd h) =
        (if fst h then (if currentStep w = 0 then SYN_SENT
                        else if currentStep w = 1 then FAILED else ESTABLISHED) else FAILED)"
      "serverState (snd h) =
        (if fst h then (if currentStep w = 0 then FAILED
                        else if currentStep w = 1 then SYN_RECEIVED else ESTABLISHED) else FAILED)"
      "connectionStatus (snd h) =
        (if fst h then (if currentStep w = 0 then Connecting
                        else if currentStep w = 1 then Failed else Established) else Failed)"
      "currentStep (snd h) = currentStep w"
    using assms by (subst shape, simp)+
  have config: "a \<noteq> ClickMain \<and> a \<noteq> ClickReset \<longrightarrow>
        connectionStatus (perform a w) = Failed
        \<and> clientState (perform a w) = FAILED
        \<and> serverState (perform a w) = FAILED"
    using assms by (cases a) simp_all
  have main: "(3 \<le> currentStep w \<longrightarrow> perform ClickMain w = w)
   \<and> (currentStep w < 3 \<and> \<not> fst h \<longrightarrow>
        connectionStatus (perform ClickMain w) = Failed
        \<and> clientState (perform ClickMain w) = FAILED
        \<and> serverState (perform ClickMain w) = FAILED
        \<and> currentStep (perform ClickMain w) = currentStep w)
   \<and> (currentStep w < 3 \<and> fst h \<longrightarrow>
        currentStep (perform ClickMain w) = currentStep w + 1
        \<and> (currentStep w = 0 \<longrightarrow>
             clientState (perform ClickMain w) = SYN_SENT
             \<and> connectionStatus (perform ClickMain w) = Connecting
             \<and> serverState (perform ClickMain w) = FAILED)
        \<and> (currentStep w = 1 \<longrightarrow>
             serverState (perform ClickMain w) = SYN_RECEIVED
             \<and> clientState (perform ClickMain w) = FAILED
             \<and> connectionStatus (perform ClickMain w) = Failed)
        \<and> (currentStep w = 2 \<longrightarrow>
             clientState (perform ClickMain w) = ESTABLISHED
             \<and> serverState (perform ClickMain w) = ESTABLISHED
             \<and> connectionStatus (perform ClickMain w) = Established))"
    unfolding click using assms by (simp add: fields)
  have reset: "connectionStatus (perform ClickReset w) = Idle
   \<and> clientState (perform ClickReset w) = CLOSED
   \<and> serverState (perform ClickReset w) = CLOSED"
    using assms by (simp add: resetSimulation_fields)
  from main config reset show ?thesis
    unfolding h_def by blast
qed

theorem advance_from_failed_witness:
  "connectionStatus (performAll [SetSimulationMode Step, SetPacketLoss LossSyn, ClickMain,
       SetPacketLoss LossNone] (mounted zeroDraws)) = Failed
   \<and> clientState (performAll [SetSimulationMode Step, SetPacketLoss LossSyn, ClickMain,
       SetPacketLoss LossNone] (mounted zeroDraws)) = FAILED
   \<and> serverState (performAll [SetSimulationMode Step, SetPacketLoss LossSyn, ClickMain,
       SetPacketLoss LossNone] (mounted zeroDraws)) = FAILED
   \<and> simulationMode (performAll [SetSimulationMode Step, SetPacketLoss LossSyn, ClickMain,
       SetPacketLoss LossNone] (mounted zeroDraws)) = Step
   \<and> \<not> isSimulating (performAll [SetSimulationMode Step, SetPacketLoss LossSyn, ClickMain,
       SetPacketLoss LossNone] (mounted zeroDraws))
   \<and> currentStep (performAll [SetSimulationMode Step, SetPacketLoss LossSyn, ClickMain,
       SetPacketLoss LossNone] (mounted zeroDraws)) = 0
   \<and> currentStep (perform ClickMain (performAll [SetSimulationMode Step, SetPacketLoss LossSyn,
       ClickMain, SetPacketLoss LossNone] (mounted zeroDraws))) = 1
   \<and> serverState (perform ClickMain (performAll [SetSimulationMode Step, SetPacketLoss LossSyn,
       ClickMain, SetPacketLoss LossNone] (mounted zeroDraws))) = FAILED
   \<and> connectionStatus (perform ClickMain (performAll [SetSimulationMode Step,
       SetPacketLoss LossSyn, ClickMain] (mounted zeroDraws))) = Failed
   \<and> SetPacketLoss LossNone \<noteq> ClickMain \<and> SetPacketLoss LossNone \<noteq> ClickReset
   \<and> connectionStatus (perform (SetPacketLoss LossNone) (performAll [SetSimulationMode Step,
       SetPacketLoss LossSyn, ClickMain] (mounted zeroDraws))) = Failed"
proof -
  define F where "F = performAll [SetSimulationMode Step, SetPacketLoss LossSyn, ClickMain,
       SetPacketLoss LossNone] (mounted zeroDraws)"
  define G where "G = performAll [SetSimulationMode Step, SetPacketLoss LossSyn, ClickMain]
       (mounted zeroDraws)"
  have f: "connectionStatus F = Failed" "clientState F = FAILED" "serverState F = FAILED"
      "simulationMode F = Step" "\<not> isSimulating F"
    unfolding F_def by code_simp+
  have f0: "currentStep F = 0" unfolding F_def by code_simp
  have fok: "currentStep F < 3
        \<and> fst (handleStepExecution F (currentStep F + 1) (F\<lparr>isSimulating := True\<rparr>))"
    unfolding F_def by code_simp
  have g: "connectionStatus G = Failed" "clientState G = FAILED" "serverState G = FAILED"
      "simulationMode G = Step" "\<not> isSimulating G"
    unfolding G_def by code_simp+
  have gno: "currentStep G < 3
        \<and> \<not> fst (handleStepExecution G (currentStep G + 1) (G\<lparr>isSimulating := True\<rparr>))"
    unfolding G_def by code_simp
  from advance_from_failed [OF f] fok f0
  have a: "currentStep (perform ClickMain F) = 1 \<and> serverState (perform ClickMain F) = FAILED"
    by simp
  from advance_from_failed [OF g] gno
  have b: "connectionStatus (perform ClickMain G) = Failed" by blast
  have n: "SetPacketLoss LossNone \<noteq> ClickMain \<and> SetPacketLoss LossNone \<noteq> ClickReset"
    by simp
  from advance_from_failed [OF g, of "SetPacketLoss LossNone"] n
  have c: "connectionStatus (perform (SetPacketLoss LossNone) G) = Failed" by blast
  from f f0 a b n c show ?thesis unfolding F_def G_def by blast
qed

theorem never_leave_failed_counterexample:
  "connectionStatus (performAll [SetSimulationMode Step, SetPacketLoss LossSyn, ClickMain,
       SetPacketLoss LossNone] (mounted zeroDraws)) = Failed
   \<and> clientState (performAll [SetSimulationMode Step, SetPacketLoss LossSyn, ClickMain,
       SetPacketLoss LossNone] (mounted zeroDraws)) = FAILED
   \<and> serverState (performAll [SetSimulationMode Step, SetPacketLoss LossSyn, ClickMain,
       SetPacketLoss LossNone] (mounted zeroDraws)) = FAILED
   \<and> connectionStatus (perform ClickMain (performAll [SetSimulationMode Step,
       SetPacketLoss LossSyn, ClickMain, SetPacketLoss LossNone] (mounted zeroDraws))) = Connecting
   \<and> clientState (perform ClickMain (performAll [SetSimulationMode Step,
       SetPacketLoss LossSyn, ClickMain, SetPacketLoss LossNone] (mounted zeroDraws))) = SYN_SENT"
  by code_simp

end
